theory Spec2Isabelle
  imports Complex_Main
begin

section \<open>Data model\<close>

text \<open>
  The route-drawing engine of the map viewer (trail snapping, trail identity, segment
  extraction, fragment merging, corridor connection and route assembly) is embedded
  function by function. JavaScript numbers are modelled by \<^typ>\<open>real\<close> (no rounding,
  no NaN); array indices returned by the geometry library are integers.
\<close>

text \<open>
  An entry of a coordinate array: a position \<open>[lng, lat]\<close>, or \<open>undefined\<close>,
  which is what JavaScript yields when an array is read outside its bounds.
\<close>

datatype coord = Undef | Pt real real

text \<open>
  Exceptions: a \<open>TypeError\<close> raised by the engine's own property accesses
  (\<open>undefined[0]\<close>), and an error thrown by the geometry library or the map.
\<close>

datatype error = TypeError | LibError

text \<open>Values of the optional \<open>id\<close> and \<open>name\<close> properties of a trail feature.\<close>

datatype jsprim = Null | Num real | Str string

record trailRef =
  trailCoords :: "coord list"
  trailId :: jsprim
  trailName :: jsprim
  indexOnLine :: int

text \<open>A pixel position \<open>{x, y}\<close> as returned by the map's projection.\<close>

type_synonym pixel = "real \<times> real"

text \<open>
  A rendered trail feature: \<open>geometry.type\<close>, \<open>geometry.coordinates\<close>, \<open>id\<close>,
  \<open>properties.osm_id\<close> and \<open>properties.name\<close> (absent properties are \<open>Null\<close>).
\<close>

record feature =
  geomType :: string
  geomCoordinates :: "coord list"
  featId :: jsprim
  osmId :: jsprim
  featName :: jsprim

text \<open>
  The point returned by \<open>turf.nearestPointOnLine\<close>: \<open>geometry.coordinates\<close> and
  \<open>properties.index\<close>, the index of the polyline segment it lies on.
\<close>

record nearest =
  nearCoordinates :: coord
  nearIndex :: int

text \<open>
  The collaborators the engine calls but does not define: the map (\<open>map.project\<close>,
  \<open>map.queryRenderedFeatures\<close> on the trails layer) and the geometry library turf.
  Each call may throw. A turf point is represented by its coordinate and a turf line
  string by its coordinate list; distances are in meters, lengths in miles.
\<close>

record env =
  turfLoaded :: bool
  map_project :: "coord \<Rightarrow> error + pixel"
  map_queryRenderedFeatures :: "pixel \<times> pixel \<Rightarrow> error + feature list"
  turf_point :: "coord \<Rightarrow> error + coord"
  turf_lineString :: "coord list \<Rightarrow> error + coord list"
  turf_nearestPointOnLine :: "coord list \<Rightarrow> coord \<Rightarrow> error + nearest"
  turf_distance :: "coord \<Rightarrow> coord \<Rightarrow> error + real"
  turf_lineSlice :: "coord \<Rightarrow> coord \<Rightarrow> coord list \<Rightarrow> error + coord list"
  turf_length :: "coord list \<Rightarrow> error + real"

text \<open>The result of \<open>snapToTrail\<close>.\<close>

record snapResult =
  coordinates :: coord
  snapped :: bool
  trailFeature :: "feature option"
  snapIndexOnLine :: "int option"

text \<open>The running minimum of the snapping loop (\<open>bestPoint\<close>, \<open>bestPixelDist\<close>, \<open>bestTrail\<close>).\<close>

record best =
  bestPoint :: nearest
  bestPixelDist :: real
  bestTrail :: feature

record segment =
  coords :: "coord list"
  isTrailSnapped :: bool

text \<open>
  An entry of the candidate lists of the two-hop search. \<open>candKey\<close> is the position of
  the trail in the corridor query result and stands for the identity of the feature
  object, which the code compares with \<open>===\<close>.
\<close>

record candidate =
  candKey :: nat
  candTrail :: feature
  nearPoint :: nearest

datatype pointType = Route | Camp | Dayhike | Rest

record spur =
  fromVertexIndex :: nat
  spurCoords :: "coord list"
  spurDistance :: real

text \<open>The module-level drawing state.\<close>

record session =
  isDrawingRoute :: bool
  routeCoords :: "coord list"
  routeSnapped :: "bool list"
  routeVertexTypes :: "pointType list"
  routeTrailRefs :: "trailRef option list"
  routeSegments :: "segment list"
  routeDayhikeSegments :: "spur list"
  currentPointType :: pointType

text \<open>What can happen to a drawing session.\<close>

datatype event =
    MapClick real real bool
  | SetActivePointType pointType
  | StartRouteDrawing
  | ResetRouteDrawing

datatype trailMatch = Same | Related | NoMatch

section \<open>Operations\<close>

text \<open>Sequencing of computations that may throw: the first exception aborts the rest.\<close>

definition bindE :: "error + 'a \<Rightarrow> ('a \<Rightarrow> error + 'b) \<Rightarrow> error + 'b" where
  "bindE m f = (case m of Inl e \<Rightarrow> Inl e | Inr x \<Rightarrow> f x)"

text \<open>\<open>arr[i]\<close>: JavaScript reads \<open>undefined\<close> outside the array.\<close>

definition jsAt :: "coord list \<Rightarrow> int \<Rightarrow> coord" where
  "jsAt arr i = (if 0 \<le> i \<and> i < int (length arr) then arr ! nat i else Undef)"

text \<open>JavaScript truthiness of an id or a name: \<open>null\<close>, \<open>0\<close> and \<open>""\<close> are falsy.\<close>

fun truthy :: "jsprim \<Rightarrow> bool" where
  "truthy Null = False"
| "truthy (Num x) = (x \<noteq> 0)"
| "truthy (Str s) = (s \<noteq> [])"

text \<open>
  \<open>a[0] === b[0] && a[1] === b[1]\<close>: both operands of the first comparison are
  evaluated, so an \<open>undefined\<close> entry on either side raises.
\<close>

fun coordsEqual :: "coord \<Rightarrow> coord \<Rightarrow> error + bool" where
  "coordsEqual Undef b = Inl TypeError"
| "coordsEqual (Pt ax ay) Undef = Inl TypeError"
| "coordsEqual (Pt ax ay) (Pt bx by) = Inr (ax = bx \<and> ay = by)"

definition trailsMatch :: "trailRef option \<Rightarrow> trailRef option \<Rightarrow> error + trailMatch" where
  "trailsMatch refA refB =
     (case refA of None \<Rightarrow> Inr NoMatch
      | Some a \<Rightarrow>
     (case refB of None \<Rightarrow> Inr NoMatch
      | Some b \<Rightarrow>
        (let ac = trailCoords a; bc = trailCoords b;
             lengthMatch = (length ac = length bc)
         in bindE (if length ac > 0 \<and> length bc > 0
                   then coordsEqual (jsAt ac 0) (jsAt bc 0) else Inr False) (\<lambda>firstMatch.
            bindE (if length ac > 0 \<and> length bc > 0
                   then coordsEqual (jsAt ac (int (length ac) - 1)) (jsAt bc (int (length bc) - 1))
                   else Inr False) (\<lambda>lastMatch.
            if lengthMatch \<and> firstMatch \<and> lastMatch then Inr Same
            else if truthy (trailId a) \<and> truthy (trailId b) \<and> trailId a = trailId b
              then Inr Related
            else if truthy (trailName a) \<and> truthy (trailName b) \<and> trailName a = trailName b
              then Inr Related
            else Inr NoMatch)))))"

text \<open>
  The forward loop \<open>for (i = startIdx + 1; i <= endIdx; i++)\<close> and the backward loop
  \<open>for (i = startIdx; i > endIdx; i--)\<close> push \<open>trailCoords[i]\<close> for each index of
  their range, in the order the index takes.
\<close>

definition extractTrailSlice :: "coord list \<Rightarrow> coord \<Rightarrow> int \<Rightarrow> coord \<Rightarrow> int \<Rightarrow> coord list" where
  "extractTrailSlice trail startCoord startIdx endCoord endIdx =
     (if startIdx \<le> endIdx
      then [startCoord] @ map (jsAt trail) [startIdx + 1..endIdx] @ [endCoord]
      else [startCoord] @ map (jsAt trail) (rev [endIdx + 1..startIdx]) @ [endCoord])"

text \<open>
  A \<open>for\<close> loop that threads local variables through its iterations, and a \<open>for\<close> loop
  whose body may \<open>return\<close> a result from the enclosing function: the first iteration
  that yields one ends the loop. An exception ends either loop.
\<close>

fun foldE :: "('s \<Rightarrow> 'a \<Rightarrow> error + 's) \<Rightarrow> 's \<Rightarrow> 'a list \<Rightarrow> error + 's" where
  "foldE f s [] = Inr s"
| "foldE f s (x # xs) = (case f s x of Inl e \<Rightarrow> Inl e | Inr s' \<Rightarrow> foldE f s' xs)"

fun forEachUntil :: "('a \<Rightarrow> error + 'r option) \<Rightarrow> 'a list \<Rightarrow> error + 'r option" where
  "forEachUntil f [] = Inr None"
| "forEachUntil f (x # xs) =
     (case f x of Inl e \<Rightarrow> Inl e | Inr (Some r) \<Rightarrow> Inr (Some r) | Inr None \<Rightarrow> forEachUntil f xs)"

definition SNAP_PIXEL_RADIUS :: real where
  "SNAP_PIXEL_RADIUS = 30"

definition MERGE_GAP_TOLERANCE_METERS :: real where
  "MERGE_GAP_TOLERANCE_METERS = 20"

text \<open>\<open>Math.sqrt(dx * dx + dy * dy)\<close> for \<open>dx = a.x - b.x\<close> and \<open>dy = a.y - b.y\<close>.\<close>

definition pixelDistance :: "pixel \<Rightarrow> pixel \<Rightarrow> real" where
  "pixelDistance a b = (let dx = fst a - fst b; dy = snd a - snd b in sqrt (dx * dx + dy * dy))"

subsection \<open>Snapping a click to the nearest trail\<close>

definition unsnapped :: "coord \<Rightarrow> snapResult" where
  "unsnapped coord =
     \<lparr>coordinates = coord, snapped = False, trailFeature = None, snapIndexOnLine = None\<rparr>"

text \<open>
  The projection of the click onto one candidate trail and its distance on screen
  (the first half of the loop body of \<open>snapToTrail\<close>).
\<close>

definition snapCandidate :: "env \<Rightarrow> pixel \<Rightarrow> coord \<Rightarrow> feature \<Rightarrow> error + (nearest \<times> real)" where
  "snapCandidate env pixel clickPoint trail =
     bindE (turf_lineString env (geomCoordinates trail)) (\<lambda>line.
     bindE (turf_nearestPointOnLine env line clickPoint) (\<lambda>nearest.
     bindE (map_project env (nearCoordinates nearest)) (\<lambda>snappedPixel.
     Inr (nearest, pixelDistance snappedPixel pixel))))"

text \<open>
  One iteration of the loop of \<open>snapToTrail\<close>. The running minimum starts as
  \<open>bestPoint = null\<close>, \<open>bestPixelDist = Infinity\<close>, here \<open>None\<close>: every distance is
  below \<open>Infinity\<close>.
\<close>

definition snapStep :: "env \<Rightarrow> pixel \<Rightarrow> coord \<Rightarrow> best option \<Rightarrow> feature \<Rightarrow> error + best option" where
  "snapStep env pixel clickPoint b trail =
     (if geomType trail \<noteq> ''LineString'' then Inr b
      else if length (geomCoordinates trail) < 2 then Inr b
      else bindE (snapCandidate env pixel clickPoint trail) (\<lambda>(nearest, pixelDist).
        if (case b of None \<Rightarrow> True | Some b' \<Rightarrow> pixelDist < bestPixelDist b')
        then Inr (Some \<lparr>bestPoint = nearest, bestPixelDist = pixelDist, bestTrail = trail\<rparr>)
        else Inr b))"

definition snapToTrail :: "env \<Rightarrow> coord \<Rightarrow> error + snapResult" where
  "snapToTrail env coord =
     (if \<not> turfLoaded env then Inr (unsnapped coord)
      else
        bindE (map_project env coord) (\<lambda>pixel.
        bindE (map_queryRenderedFeatures env
                 ((fst pixel - SNAP_PIXEL_RADIUS, snd pixel - SNAP_PIXEL_RADIUS),
                  (fst pixel + SNAP_PIXEL_RADIUS, snd pixel + SNAP_PIXEL_RADIUS))) (\<lambda>trails.
        if length trails = 0 then Inr (unsnapped coord)
        else
          bindE (turf_point env coord) (\<lambda>clickPoint.
          bindE (foldE (snapStep env pixel clickPoint) None trails) (\<lambda>b.
          case b of
            None \<Rightarrow> Inr (unsnapped coord)
          | Some b' \<Rightarrow>
              if bestPixelDist b' \<le> SNAP_PIXEL_RADIUS
              then Inr \<lparr>coordinates = nearCoordinates (bestPoint b'), snapped = True,
                        trailFeature = Some (bestTrail b'),
                        snapIndexOnLine = Some (nearIndex (bestPoint b'))\<rparr>
              else Inr (unsnapped coord))))))"

subsection \<open>Merging two fragments of one trail\<close>

text \<open>\<open>turf.distance(turf.point(a), turf.point(b), { units: "meters" })\<close>.\<close>

definition distMeters :: "env \<Rightarrow> coord \<Rightarrow> coord \<Rightarrow> error + real" where
  "distMeters env a b =
     bindE (turf_point env a) (\<lambda>pa.
     bindE (turf_point env b) (\<lambda>pb.
     turf_distance env pa pb))"

text \<open>
  The arguments are the coordinate arrays of the two features; \<open>None\<close> is the
  \<open>null\<close> the function returns when no join is within tolerance.
\<close>

definition mergeTrailFragments :: "env \<Rightarrow> coord list \<Rightarrow> coord list \<Rightarrow> error + coord list option" where
  "mergeTrailFragments env coordsA coordsB =
     (if length coordsA = 0 \<or> length coordsB = 0 then Inr None
      else
        (let aEnd = jsAt coordsA (int (length coordsA) - 1);
             bStart = jsAt coordsB 0;
             bEnd = jsAt coordsB (int (length coordsB) - 1);
             aStart = jsAt coordsA 0
         in
           bindE (distMeters env aEnd bStart) (\<lambda>dAEndBStart.
           if dAEndBStart \<le> MERGE_GAP_TOLERANCE_METERS
           then bindE (turf_lineString env (coordsA @ drop 1 coordsB)) (\<lambda>l. Inr (Some l))
           else
             bindE (distMeters env aEnd bEnd) (\<lambda>dAEndBEnd.
             if dAEndBEnd \<le> MERGE_GAP_TOLERANCE_METERS
             then bindE (turf_lineString env (coordsA @ drop 1 (rev coordsB))) (\<lambda>l. Inr (Some l))
             else
               bindE (distMeters env bEnd aStart) (\<lambda>dBEndAStart.
               if dBEndAStart \<le> MERGE_GAP_TOLERANCE_METERS
               then bindE (turf_lineString env (coordsB @ drop 1 coordsA)) (\<lambda>l. Inr (Some l))
               else
                 bindE (distMeters env bStart aStart) (\<lambda>dBStartAStart.
                 if dBStartAStart \<le> MERGE_GAP_TOLERANCE_METERS
                 then bindE (turf_lineString env (rev coordsB @ drop 1 coordsA)) (\<lambda>l. Inr (Some l))
                 else Inr None))))))"

subsection \<open>Connecting two points through the corridor between them\<close>

text \<open>
  The extent of a trail, accumulated over its coordinates. \<open>None\<close> is the initial
  \<open>(Infinity, -Infinity, Infinity, -Infinity)\<close>, which the first coordinate
  replaces in all four components. Reading \<open>tc[k][0]\<close> raises on \<open>undefined\<close>.
\<close>

definition boundsStep ::
  "(real \<times> real \<times> real \<times> real) option \<Rightarrow> coord \<Rightarrow> error + (real \<times> real \<times> real \<times> real) option" where
  "boundsStep b c =
     (case c of
        Undef \<Rightarrow> Inl TypeError
      | Pt x y \<Rightarrow>
          (case b of
             None \<Rightarrow> Inr (Some (x, x, y, y))
           | Some (tMinLng, tMaxLng, tMinLat, tMaxLat) \<Rightarrow>
               Inr (Some (if x < tMinLng then x else tMinLng, if x > tMaxLng then x else tMaxLng,
                          if y < tMinLat then y else tMinLat, if y > tMaxLat then y else tMaxLat))))"

definition withinBounds :: "(real \<times> real \<times> real \<times> real) option \<Rightarrow> real \<Rightarrow> real \<Rightarrow> bool" where
  "withinBounds b x y =
     (case b of
        None \<Rightarrow> False
      | Some (tMinLng, tMaxLng, tMinLat, tMaxLat) \<Rightarrow>
          (let pad = 5 / 1000
           in x \<ge> tMinLng - pad \<and> x \<le> tMaxLng + pad \<and> y \<ge> tMinLat - pad \<and> y \<le> tMaxLat + pad))"

text \<open>
  Both endpoints projected onto one corridor trail, with their distances on screen
  (the same five calls open the loop bodies of both passes of \<open>tryConnectTrails\<close>).
\<close>

definition projectOntoTrail ::
  "env \<Rightarrow> pixel \<Rightarrow> pixel \<Rightarrow> coord \<Rightarrow> coord \<Rightarrow> feature \<Rightarrow> error + (nearest \<times> nearest \<times> real \<times> real)" where
  "projectOntoTrail env p1 p2 prevPt currPt trail =
     bindE (turf_lineString env (geomCoordinates trail)) (\<lambda>line.
     bindE (turf_nearestPointOnLine env line prevPt) (\<lambda>nearPrev.
     bindE (turf_nearestPointOnLine env line currPt) (\<lambda>nearCurr.
     bindE (map_project env (nearCoordinates nearPrev)) (\<lambda>prevPixel.
     bindE (map_project env (nearCoordinates nearCurr)) (\<lambda>currPixel.
     Inr (nearPrev, nearCurr, pixelDistance prevPixel p1, pixelDistance currPixel p2))))))"

text \<open>The body of the first loop: one trail that passes near both points.\<close>

definition singleTrail ::
  "env \<Rightarrow> coord \<Rightarrow> coord \<Rightarrow> pixel \<Rightarrow> pixel \<Rightarrow> coord \<Rightarrow> coord \<Rightarrow> feature \<Rightarrow> error + segment option" where
  "singleTrail env prevCoord currCoord p1 p2 prevPt currPt trail =
     (if geomType trail \<noteq> ''LineString'' \<or> length (geomCoordinates trail) < 2 then Inr None
      else
        bindE (foldE boundsStep None (geomCoordinates trail)) (\<lambda>bounds.
        case prevCoord of
          Undef \<Rightarrow> Inl TypeError
        | Pt prevLng prevLat \<Rightarrow>
       (case currCoord of
          Undef \<Rightarrow> Inl TypeError
        | Pt currLng currLat \<Rightarrow>
            if \<not> withinBounds bounds prevLng prevLat \<or> \<not> withinBounds bounds currLng currLat
            then Inr None
            else
              bindE (projectOntoTrail env p1 p2 prevPt currPt trail)
                (\<lambda>(nearPrev, nearCurr, distPrev, distCurr).
              if distPrev \<le> SNAP_PIXEL_RADIUS * 2 \<and> distCurr \<le> SNAP_PIXEL_RADIUS * 2
              then
                (let slicedCoords = extractTrailSlice (geomCoordinates trail)
                       prevCoord (nearIndex nearPrev) currCoord (nearIndex nearCurr)
                 in if length slicedCoords \<ge> 2
                    then Inr (Some \<lparr>coords = slicedCoords, isTrailSnapped = True\<rparr>)
                    else Inr None)
              else Inr None))))"

text \<open>The body of the second loop: candidate trails near each endpoint.\<close>

definition collectStep ::
  "env \<Rightarrow> pixel \<Rightarrow> pixel \<Rightarrow> coord \<Rightarrow> coord \<Rightarrow> candidate list \<times> candidate list \<Rightarrow> nat \<times> feature
     \<Rightarrow> error + (candidate list \<times> candidate list)" where
  "collectStep env p1 p2 prevPt currPt acc kt =
     (let trail = snd kt
      in if geomType trail \<noteq> ''LineString'' \<or> length (geomCoordinates trail) < 2 then Inr acc
         else
           bindE (projectOntoTrail env p1 p2 prevPt currPt trail)
             (\<lambda>(nearPrev, nearCurr, dPrev, dCurr).
           Inr (if dPrev \<le> SNAP_PIXEL_RADIUS * 2
                then fst acc @ [\<lparr>candKey = fst kt, candTrail = trail, nearPoint = nearPrev\<rparr>]
                else fst acc,
                if dCurr \<le> SNAP_PIXEL_RADIUS * 2
                then snd acc @ [\<lparr>candKey = fst kt, candTrail = trail, nearPoint = nearCurr\<rparr>]
                else snd acc)))"

text \<open>The body of the innermost loop of the junction search, at indices \<open>ai\<close> and \<open>bi\<close>.\<close>

definition junctionAt ::
  "env \<Rightarrow> coord \<Rightarrow> coord \<Rightarrow> candidate \<Rightarrow> candidate \<Rightarrow> int \<Rightarrow> int \<Rightarrow> error + segment option" where
  "junctionAt env prevCoord currCoord pc cc ai bi =
     (let coordsA = geomCoordinates (candTrail pc);
          coordsB = geomCoordinates (candTrail cc)
      in bindE (distMeters env (jsAt coordsA ai) (jsAt coordsB bi)) (\<lambda>gapM.
         if gapM > MERGE_GAP_TOLERANCE_METERS then Inr None
         else
           (let junctionCoord = jsAt coordsA ai;
                legA = extractTrailSlice coordsA
                         prevCoord (nearIndex (nearPoint pc)) junctionCoord ai;
                legB = extractTrailSlice coordsB
                         junctionCoord bi currCoord (nearIndex (nearPoint cc))
            in if length legA \<ge> 2 \<and> length legB \<ge> 2
               then Inr (Some \<lparr>coords = legA @ drop 1 legB, isTrailSnapped = True\<rparr>)
               else Inr None)))"

definition twoHop ::
  "env \<Rightarrow> coord \<Rightarrow> coord \<Rightarrow> candidate list \<Rightarrow> candidate list \<Rightarrow> error + segment option" where
  "twoHop env prevCoord currCoord prevCandidates currCandidates =
     forEachUntil (\<lambda>pc.
       forEachUntil (\<lambda>cc.
         if candKey pc = candKey cc then Inr None
         else
           forEachUntil (\<lambda>ai.
             forEachUntil (\<lambda>bi. junctionAt env prevCoord currCoord pc cc ai bi)
               [0..int (length (geomCoordinates (candTrail cc))) - 1])
             [0..int (length (geomCoordinates (candTrail pc))) - 1])
         currCandidates)
       prevCandidates"

text \<open>\<open>None\<close> is the \<open>null\<close> returned when no connection is found.\<close>

definition tryConnectTrails ::
  "env \<Rightarrow> trailRef option \<Rightarrow> trailRef option \<Rightarrow> coord \<Rightarrow> coord \<Rightarrow> error + segment option" where
  "tryConnectTrails env prevRef currRef prevCoord currCoord =
     bindE (map_project env prevCoord) (\<lambda>p1.
     bindE (map_project env currCoord) (\<lambda>p2.
     (let minX = min (fst p1) (fst p2) - SNAP_PIXEL_RADIUS;
          minY = min (snd p1) (snd p2) - SNAP_PIXEL_RADIUS;
          maxX = max (fst p1) (fst p2) + SNAP_PIXEL_RADIUS;
          maxY = max (snd p1) (snd p2) + SNAP_PIXEL_RADIUS
      in
     bindE (map_queryRenderedFeatures env ((minX, minY), (maxX, maxY))) (\<lambda>corridorTrails.
     bindE (turf_point env prevCoord) (\<lambda>prevPt.
     bindE (turf_point env currCoord) (\<lambda>currPt.
     bindE (forEachUntil (singleTrail env prevCoord currCoord p1 p2 prevPt currPt) corridorTrails)
       (\<lambda>single.
     case single of
       Some seg \<Rightarrow> Inr (Some seg)
     | None \<Rightarrow>
         bindE (foldE (collectStep env p1 p2 prevPt currPt) ([], [])
                  (zip [0..<length corridorTrails] corridorTrails))
           (\<lambda>(prevCandidates, currCandidates).
         twoHop env prevCoord currCoord prevCandidates currCandidates))))))))"

subsection \<open>The segment between two vertices\<close>

definition straightLine :: "coord \<Rightarrow> coord \<Rightarrow> segment" where
  "straightLine prevCoord currCoord = \<lparr>coords = [prevCoord, currCoord], isTrailSnapped = False\<rparr>"

text \<open>
  The body of the \<open>try\<close> block of the tile-boundary branch: merge the two fragments,
  slice the merged line by position, and overwrite both ends of the slice with the
  vertex coordinates.
\<close>

definition tileBoundarySlice ::
  "env \<Rightarrow> trailRef \<Rightarrow> trailRef \<Rightarrow> coord \<Rightarrow> coord \<Rightarrow> error + segment option" where
  "tileBoundarySlice env p c prevCoord currCoord =
     bindE (mergeTrailFragments env (trailCoords p) (trailCoords c)) (\<lambda>merged.
     case merged of
       None \<Rightarrow> Inr None
     | Some m \<Rightarrow>
         bindE (turf_point env prevCoord) (\<lambda>pt1.
         bindE (turf_point env currCoord) (\<lambda>pt2.
         bindE (turf_lineSlice env pt1 pt2 m) (\<lambda>sc.
         if length sc \<ge> 2
         then Inr (Some \<lparr>coords = (sc[0 := prevCoord])[length sc - 1 := currCoord],
                         isTrailSnapped = True\<rparr>)
         else Inr None))))"

text \<open>
  \<open>trailsMatch\<close> and \<open>tryConnectTrails\<close> are called outside any \<open>try\<close>; the two
  \<open>catch\<close> clauses cover the index slice and the tile-boundary block only.
\<close>

definition getTrailSegmentBetween ::
  "env \<Rightarrow> trailRef option \<Rightarrow> trailRef option \<Rightarrow> coord \<Rightarrow> coord \<Rightarrow> error + segment" where
  "getTrailSegmentBetween env prevRef currRef prevCoord currCoord =
     (case prevRef of
        None \<Rightarrow> Inr (straightLine prevCoord currCoord)
      | Some p \<Rightarrow>
     (case currRef of
        None \<Rightarrow> Inr (straightLine prevCoord currCoord)
      | Some c \<Rightarrow>
          bindE (trailsMatch prevRef currRef) (\<lambda>match.
          if match = Same
          then
            (let slicedCoords = extractTrailSlice (trailCoords p)
                   prevCoord (indexOnLine p) currCoord (indexOnLine c)
             in if length slicedCoords \<ge> 2
                then Inr \<lparr>coords = slicedCoords, isTrailSnapped = True\<rparr>
                else Inr (straightLine prevCoord currCoord))
          else
            (let result =
                   (if match = Related
                    then (case tileBoundarySlice env p c prevCoord currCoord of
                            Inl err \<Rightarrow> None
                          | Inr r \<Rightarrow> r)
                    else None)
             in bindE (case result of
                         None \<Rightarrow> tryConnectTrails env prevRef currRef prevCoord currCoord
                       | Some r \<Rightarrow> Inr (Some r)) (\<lambda>result.
                case result of
                  None \<Rightarrow> Inr (straightLine prevCoord currCoord)
                | Some r \<Rightarrow> Inr \<lparr>coords = coords r, isTrailSnapped = isTrailSnapped r\<rparr>)))))"

subsection \<open>The drawing session\<close>

text \<open>\<open>routeVertexTypes[i]\<close> and \<open>routeTrailRefs[i]\<close>; \<open>undefined\<close> is \<open>None\<close>.\<close>

definition typeAt :: "pointType list \<Rightarrow> nat \<Rightarrow> pointType option" where
  "typeAt types i = (if i < length types then Some (types ! i) else None)"

definition refAt :: "trailRef option list \<Rightarrow> nat \<Rightarrow> trailRef option" where
  "refAt refs i = (if i < length refs then refs ! i else None)"

text \<open>
  The loop \<open>for (i = upToIndex; i >= 0; i--)\<close>, and the \<open>return 0\<close> that follows it
  when every vertex up to \<open>upToIndex\<close> is a dayhike.
\<close>

fun findLastMainRouteVertexIndex :: "pointType list \<Rightarrow> nat \<Rightarrow> nat" where
  "findLastMainRouteVertexIndex types 0 = (if typeAt types 0 \<noteq> Some Dayhike then 0 else 0)"
| "findLastMainRouteVertexIndex types (Suc i) =
     (if typeAt types (Suc i) \<noteq> Some Dayhike then Suc i
      else findLastMainRouteVertexIndex types i)"

text \<open>\<open>a ?? b\<close>.\<close>

definition nullish :: "jsprim \<Rightarrow> jsprim \<Rightarrow> jsprim" where
  "nullish a b = (if a = Null then b else a)"

text \<open>
  The click handler mutates the session as it goes, so an exception leaves the
  mutations made before it: \<open>Inl (e, s)\<close> is exception \<open>e\<close> escaping in state \<open>s\<close>.
  A snapped result always carries its trail feature and index (see \<open>snapToTrail\<close>).
  The redrawing and logging that end the handler are left out.
\<close>

definition handleMapClickForRoute ::
  "env \<Rightarrow> session \<Rightarrow> real \<Rightarrow> real \<Rightarrow> bool \<Rightarrow> (error \<times> session) + session" where
  "handleMapClickForRoute env s lng lat shiftKey =
     (if \<not> isDrawingRoute s then Inr s
      else
        (let coord = Pt lng lat
         in case (if shiftKey then Inr (unsnapped coord) else snapToTrail env coord) of
              Inl e \<Rightarrow> Inl (e, s)
            | Inr result \<Rightarrow>
        (let s1 = s\<lparr>routeCoords := routeCoords s @ [coordinates result],
                    routeSnapped := routeSnapped s @ [snapped result],
                    routeVertexTypes := routeVertexTypes s @ [currentPointType s],
                    routeTrailRefs := routeTrailRefs s @
                      [if snapped result
                       then (case (trailFeature result, snapIndexOnLine result) of
                               (Some f, Some i) \<Rightarrow>
                                 Some \<lparr>trailCoords = geomCoordinates f,
                                       trailId = nullish (featId f) (nullish (osmId f) Null),
                                       trailName = nullish (featName f) Null,
                                       indexOnLine = i\<rparr>
                             | _ \<Rightarrow> None)
                       else None]\<rparr>
         in if length (routeCoords s1) \<ge> 2
            then
              (let currIdx = length (routeCoords s1) - 1;
                   prevIdx = currIdx - 1;
                   lastMainIdx = findLastMainRouteVertexIndex (routeVertexTypes s1) prevIdx
               in if currentPointType s1 = Dayhike
                  then
                    (case getTrailSegmentBetween env
                            (refAt (routeTrailRefs s1) lastMainIdx)
                            (refAt (routeTrailRefs s1) currIdx)
                            (jsAt (routeCoords s1) (int lastMainIdx))
                            (jsAt (routeCoords s1) (int currIdx)) of
                       Inl e \<Rightarrow> Inl (e, s1)
                     | Inr segment \<Rightarrow>
                    (case (if length (coords segment) \<ge> 2
                           then bindE (turf_lineString env (coords segment)) (turf_length env)
                           else Inr 0) of
                       Inl e \<Rightarrow> Inl (e, s1)
                     | Inr distance \<Rightarrow>
                         Inr (s1\<lparr>routeDayhikeSegments := routeDayhikeSegments s1 @
                                   [\<lparr>fromVertexIndex = lastMainIdx, spurCoords = coords segment,
                                     spurDistance = distance\<rparr>]\<rparr>)))
                  else
                    (let fromIdx = (if typeAt (routeVertexTypes s1) prevIdx = Some Dayhike
                                    then lastMainIdx else prevIdx)
                     in case getTrailSegmentBetween env
                               (refAt (routeTrailRefs s1) fromIdx)
                               (refAt (routeTrailRefs s1) currIdx)
                               (jsAt (routeCoords s1) (int fromIdx))
                               (jsAt (routeCoords s1) (int currIdx)) of
                          Inl e \<Rightarrow> Inl (e, s1)
                        | Inr segment \<Rightarrow>
                            Inr (s1\<lparr>routeSegments := routeSegments s1 @ [segment]\<rparr>)))
            else Inr s1)))"

text \<open>\<open>startRouteDrawing\<close> and \<open>resetRouteDrawing\<close>, as far as the session goes.\<close>

definition startRouteDrawing :: "session \<Rightarrow> session" where
  "startRouteDrawing s =
     \<lparr>isDrawingRoute = True, routeCoords = [], routeSnapped = [], routeVertexTypes = [],
      routeTrailRefs = [], routeSegments = [], routeDayhikeSegments = [],
      currentPointType = Route\<rparr>"

definition resetRouteDrawing :: "session \<Rightarrow> session" where
  "resetRouteDrawing s =
     \<lparr>isDrawingRoute = False, routeCoords = [], routeSnapped = [], routeVertexTypes = [],
      routeTrailRefs = [], routeSegments = [], routeDayhikeSegments = [],
      currentPointType = Route\<rparr>"

definition setActivePointType :: "pointType \<Rightarrow> session \<Rightarrow> session" where
  "setActivePointType pointType s = s\<lparr>currentPointType := pointType\<rparr>"

text \<open>The state after an event has been handled, whether or not its handler threw.\<close>

fun handleEvent :: "env \<Rightarrow> session \<Rightarrow> event \<Rightarrow> session" where
  "handleEvent env s (MapClick lng lat shiftKey) =
     (case handleMapClickForRoute env s lng lat shiftKey of
        Inl (e, s') \<Rightarrow> s'
      | Inr s' \<Rightarrow> s')"
| "handleEvent env s (SetActivePointType pointType) = setActivePointType pointType s"
| "handleEvent env s StartRouteDrawing = startRouteDrawing s"
| "handleEvent env s ResetRouteDrawing = resetRouteDrawing s"

fun runEvents :: "env \<Rightarrow> session \<Rightarrow> event list \<Rightarrow> session" where
  "runEvents env s [] = s"
| "runEvents env s (ev # evs) = runEvents env (handleEvent env s ev) evs"

text \<open>The module's state when the script has loaded.\<close>

definition initialSession :: session where
  "initialSession =
     \<lparr>isDrawingRoute = False, routeCoords = [], routeSnapped = [], routeVertexTypes = [],
      routeTrailRefs = [], routeSegments = [], routeDayhikeSegments = [],
      currentPointType = Route\<rparr>"

subsection \<open>Assembling the main route\<close>

text \<open>
  One iteration of the loop over the later segments: \<open>startJ\<close> is 1 unless the
  segment's first coordinate differs from the last assembled one by more than
  \<open>1e-10\<close> on some axis. \<open>last[0]\<close> and \<open>first[0]\<close> raise on \<open>undefined\<close>.
\<close>

definition appendSegment :: "coord list \<Rightarrow> segment \<Rightarrow> error + coord list" where
  "appendSegment acc seg =
     (let segCoords = coords seg
      in bindE (if length segCoords > 0 \<and> length acc > 0
                then (case last acc of
                        Undef \<Rightarrow> Inl TypeError
                      | Pt lastLng lastLat \<Rightarrow>
                     (case hd segCoords of
                        Undef \<Rightarrow> Inl TypeError
                      | Pt firstLng firstLat \<Rightarrow>
                          (let dLng = \<bar>lastLng - firstLng\<bar>; dLat = \<bar>lastLat - firstLat\<bar>
                           in Inr (if dLng > 1 / 10 ^ 10 \<or> dLat > 1 / 10 ^ 10
                                   then 0 else (1::nat)))))
                else Inr 1) (\<lambda>startJ.
         Inr (acc @ drop startJ segCoords)))"

definition buildMainRouteDisplayCoords :: "session \<Rightarrow> error + coord list" where
  "buildMainRouteDisplayCoords s =
     (if length (routeSegments s) = 0
      then
        (let mainVertices =
               map fst (filter (\<lambda>(c, i). typeAt (routeVertexTypes s) i \<noteq> Some Dayhike)
                               (zip (routeCoords s) [0..<length (routeCoords s)]))
         in if length mainVertices > 0 then Inr [hd mainVertices] else Inr [])
      else foldE appendSegment (coords (hd (routeSegments s))) (tl (routeSegments s)))"

subsection \<open>A small map for evaluating the engine\<close>

text \<open>
  A flat map on which the engine can be run on concrete inputs: one pixel per degree,
  distances and lengths measured along the axes, the nearest point on a line taken
  among its vertices, and a line slice that returns the whole line. The map shows the
  trails it is given and a query returns those with a vertex inside the box.
\<close>

definition flatProject :: "coord \<Rightarrow> error + pixel" where
  "flatProject c = (case c of Undef \<Rightarrow> Inl LibError | Pt x y \<Rightarrow> Inr (x, y))"

definition flatPoint :: "coord \<Rightarrow> error + coord" where
  "flatPoint c = (case c of Undef \<Rightarrow> Inl LibError | Pt x y \<Rightarrow> Inr c)"

definition flatLineString :: "coord list \<Rightarrow> error + coord list" where
  "flatLineString cs = (if length cs < 2 then Inl LibError else Inr cs)"

definition flatDistance :: "coord \<Rightarrow> coord \<Rightarrow> error + real" where
  "flatDistance a b =
     (case a of
        Undef \<Rightarrow> Inl LibError
      | Pt ax ay \<Rightarrow> (case b of Undef \<Rightarrow> Inl LibError | Pt bx by \<Rightarrow> Inr (\<bar>ax - bx\<bar> + \<bar>ay - by\<bar>)))"

fun nearestVertex :: "real \<Rightarrow> real \<Rightarrow> coord list \<Rightarrow> int \<Rightarrow> nearest \<times> real \<Rightarrow> nearest \<times> real" where
  "nearestVertex x y [] k b = b"
| "nearestVertex x y (Undef # cs) k b = nearestVertex x y cs (k + 1) b"
| "nearestVertex x y (Pt cx cy # cs) k b =
     nearestVertex x y cs (k + 1)
       (if \<bar>cx - x\<bar> + \<bar>cy - y\<bar> < snd b
        then (\<lparr>nearCoordinates = Pt cx cy, nearIndex = k\<rparr>, \<bar>cx - x\<bar> + \<bar>cy - y\<bar>)
        else b)"

fun flatNearest :: "coord list \<Rightarrow> coord \<Rightarrow> error + nearest" where
  "flatNearest (Pt cx cy # cs) (Pt x y) =
     Inr (fst (nearestVertex x y cs 1
                 (\<lparr>nearCoordinates = Pt cx cy, nearIndex = 0\<rparr>, \<bar>cx - x\<bar> + \<bar>cy - y\<bar>)))"
| "flatNearest line pt = Inl LibError"

fun flatLength :: "coord list \<Rightarrow> error + real" where
  "flatLength (a # b # cs) =
     (case flatDistance a b of
        Inl e \<Rightarrow> Inl e
      | Inr d \<Rightarrow> (case flatLength (b # cs) of Inl e \<Rightarrow> Inl e | Inr r \<Rightarrow> Inr (d + r)))"
| "flatLength cs = Inr 0"

definition inBox :: "pixel \<times> pixel \<Rightarrow> coord \<Rightarrow> bool" where
  "inBox box c =
     (case c of
        Undef \<Rightarrow> False
      | Pt x y \<Rightarrow> fst (fst box) \<le> x \<and> x \<le> fst (snd box) \<and> snd (fst box) \<le> y \<and> y \<le> snd (snd box))"

definition flatEnv :: "feature list \<Rightarrow> env" where
  "flatEnv trails =
     \<lparr>turfLoaded = True,
      map_project = flatProject,
      map_queryRenderedFeatures =
        (\<lambda>box. Inr (filter (\<lambda>f. list_ex (inBox box) (geomCoordinates f)) trails)),
      turf_point = flatPoint,
      turf_lineString = flatLineString,
      turf_nearestPointOnLine = flatNearest,
      turf_distance = flatDistance,
      turf_lineSlice = (\<lambda>pt1 pt2 line. Inr line),
      turf_length = flatLength\<rparr>"

definition lineFeature :: "string \<Rightarrow> coord list \<Rightarrow> feature" where
  "lineFeature name cs =
     \<lparr>geomType = ''LineString'', geomCoordinates = cs, featId = Null, osmId = Null,
      featName = Str name\<rparr>"

subsection \<open>Predicates used to state the claims\<close>


text \<open>
  Two coordinates are duplicates within the assembly's epsilon when they differ by at
  most \<open>1e-10\<close> on both axes; a coordinate sequence is free of adjacent duplicates;
  and consecutive segments are chained when each starts exactly where the previous one
  ends, or else at a coordinate that is no duplicate of that end.
\<close>

fun nearDuplicate :: "coord \<Rightarrow> coord \<Rightarrow> bool" where
  "nearDuplicate (Pt ax ay) (Pt bx by) = (\<bar>ax - bx\<bar> \<le> 1 / 10 ^ 10 \<and> \<bar>ay - by\<bar> \<le> 1 / 10 ^ 10)"
| "nearDuplicate a b = False"

fun noAdjacentDuplicates :: "coord list \<Rightarrow> bool" where
  "noAdjacentDuplicates (a # b # cs) = (\<not> nearDuplicate a b \<and> noAdjacentDuplicates (b # cs))"
| "noAdjacentDuplicates cs = True"

fun segmentsChained :: "segment list \<Rightarrow> bool" where
  "segmentsChained (s # t # segs) =
     ((last (coords s) = hd (coords t) \<or> \<not> nearDuplicate (last (coords s)) (hd (coords t)))
      \<and> segmentsChained (t # segs))"
| "segmentsChained segs = True"

text \<open>
  The collaborators are well behaved when they do not throw on well-formed input:
  projecting, making a point of, and measuring between defined coordinates; querying
  the map, which returns trails without \<open>undefined\<close> coordinates; making a line string
  of two or more defined coordinates; and projecting a point onto such a line. Nothing
  is asked of \<open>turf.lineSlice\<close>. A trail ref is well formed when it is null or its
  coordinate array has no \<open>undefined\<close> entry.
\<close>

definition wellBehaved :: "env \<Rightarrow> bool" where
  "wellBehaved env =
     ((\<forall>c. c \<noteq> Undef \<longrightarrow> (\<exists>p. map_project env c = Inr p))
      \<and> (\<forall>box. \<exists>fs. map_queryRenderedFeatures env box = Inr fs
             \<and> (\<forall>f\<in>set fs. Undef \<notin> set (geomCoordinates f)))
      \<and> (\<forall>c. c \<noteq> Undef \<longrightarrow> (\<exists>pt. turf_point env c = Inr pt \<and> pt \<noteq> Undef))
      \<and> (\<forall>cs. 2 \<le> length cs \<and> Undef \<notin> set cs \<longrightarrow>
             (\<exists>l. turf_lineString env cs = Inr l \<and> 2 \<le> length l \<and> Undef \<notin> set l))
      \<and> (\<forall>l pt. 2 \<le> length l \<and> Undef \<notin> set l \<and> pt \<noteq> Undef \<longrightarrow>
             (\<exists>n. turf_nearestPointOnLine env l pt = Inr n \<and> nearCoordinates n \<noteq> Undef))
      \<and> (\<forall>a b. a \<noteq> Undef \<and> b \<noteq> Undef \<longrightarrow> (\<exists>d. turf_distance env a b = Inr d)))"

definition wellFormedRef :: "trailRef option \<Rightarrow> bool" where
  "wellFormedRef r = (case r of None \<Rightarrow> True | Some t \<Rightarrow> Undef \<notin> set (trailCoords t))"

section \<open>Properties of the segment extractor\<close>

lemma length_extractTrailSlice:
  "length (extractTrailSlice t a i b j) = nat \<bar>i - j\<bar> + 2"
  by (simp add: extractTrailSlice_def)

lemma hd_extractTrailSlice: "hd (extractTrailSlice t a i b j) = a"
  by (simp add: extractTrailSlice_def)

lemma last_extractTrailSlice: "last (extractTrailSlice t a i b j) = b"
  by (simp add: extractTrailSlice_def)

section \<open>Loops, and the ends of a connecting segment\<close>

lemma bindE_Inr_iff: "bindE m f = Inr y \<longleftrightarrow> (\<exists>x. m = Inr x \<and> f x = Inr y)"
  by (cases m) (auto simp: bindE_def)

lemma forEachUntil_Some: "forEachUntil f xs = Inr (Some r) \<Longrightarrow> \<exists>x\<in>set xs. f x = Inr (Some r)"
  by (induction xs) (auto split: sum.splits option.splits)

lemma forEachUntil_total:
  "(\<And>x. x \<in> set xs \<Longrightarrow> \<exists>r. f x = Inr r) \<Longrightarrow> \<exists>r. forEachUntil f xs = Inr r"
proof (induction xs)
  case Nil
  show ?case by simp
next
  case (Cons x xs)
  from Cons.prems [of x] obtain r where r: "f x = Inr r" by auto
  from Cons.IH Cons.prems obtain r' where "forEachUntil f xs = Inr r'" by auto
  with r show ?case by (cases r) auto
qed

lemma foldE_invariant:
  assumes "foldE f s xs = Inr s'" and "P s"
    and step: "\<And>a x b. P a \<Longrightarrow> x \<in> set xs \<Longrightarrow> f a x = Inr b \<Longrightarrow> P b"
  shows "P s'"
  using assms(1,2) step
proof (induction xs arbitrary: s)
  case Nil
  then show ?case by simp
next
  case (Cons x xs)
  from Cons.prems(1) obtain b where b: "f s x = Inr b" and rest: "foldE f b xs = Inr s'"
    by (auto split: sum.splits)
  from Cons.prems(3) [OF Cons.prems(2) _ b] have "P b" by simp
  moreover have "\<And>a y c. P a \<Longrightarrow> y \<in> set xs \<Longrightarrow> f a y = Inr c \<Longrightarrow> P c"
    using Cons.prems(3) by (meson list.set_intros(2))
  ultimately show ?case using Cons.IH [OF rest] by blast
qed

lemma foldE_total:
  assumes "\<And>a x. x \<in> set xs \<Longrightarrow> \<exists>b. f a x = Inr b"
  shows "\<exists>b. foldE f s xs = Inr b"
  using assms
proof (induction xs arbitrary: s)
  case Nil
  show ?case by simp
next
  case (Cons x xs)
  from Cons.prems [of x s] obtain b where b: "f s x = Inr b" by auto
  from Cons.IH [of b] Cons.prems obtain b' where "foldE f b xs = Inr b'" by auto
  with b show ?case by auto
qed

lemma tileBoundarySlice_ends:
  assumes "tileBoundarySlice env p c prevCoord currCoord = Inr (Some r)"
  shows "2 \<le> length (coords r) \<and> hd (coords r) = prevCoord \<and> last (coords r) = currCoord \<and> isTrailSnapped r"
proof -
  from assms obtain sc where sc: "2 \<le> length sc"
    and r: "r = \<lparr>coords = (sc[0 := prevCoord])[length sc - 1 := currCoord], isTrailSnapped = True\<rparr>"
    by (auto simp: tileBoundarySlice_def bindE_Inr_iff split: option.splits if_splits)
  from sc have "(sc[0 := prevCoord])[length sc - 1 := currCoord] \<noteq> []" by auto
  then have "hd ((sc[0 := prevCoord])[length sc - 1 := currCoord])
      = ((sc[0 := prevCoord])[length sc - 1 := currCoord]) ! 0"
    by (rule hd_conv_nth)
  moreover from sc have "0 < length sc" and "length sc - 1 \<noteq> 0" by auto
  ultimately have "hd ((sc[0 := prevCoord])[length sc - 1 := currCoord]) = prevCoord"
    by (simp add: nth_list_update)
  moreover have "last ((sc[0 := prevCoord])[length sc - 1 := currCoord]) = currCoord"
  proof -
    from sc have "sc[0 := prevCoord] \<noteq> []" by auto
    then show ?thesis by (simp add: last_list_update)
  qed
  ultimately show ?thesis using sc r by simp
qed

lemma singleTrail_ends:
  assumes "singleTrail env prevCoord currCoord p1 p2 prevPt currPt trail = Inr (Some r)"
  shows "2 \<le> length (coords r) \<and> hd (coords r) = prevCoord \<and> last (coords r) = currCoord \<and> isTrailSnapped r"
  using assms
  by (auto simp: singleTrail_def bindE_def Let_def hd_extractTrailSlice last_extractTrailSlice
        length_extractTrailSlice
      split: if_splits coord.splits sum.splits prod.splits)

lemma stitched_ends:
  assumes "2 \<le> length xs" and "2 \<le> length ys"
  shows "hd (xs @ drop 1 ys) = hd xs \<and> last (xs @ drop 1 ys) = last ys"
proof -
  from assms(1) have "xs \<noteq> []" by auto
  moreover from assms(2) have "drop 1 ys \<noteq> []" by auto
  ultimately show ?thesis using assms(2) by simp
qed

lemma junctionAt_ends:
  assumes "junctionAt env prevCoord currCoord pc cc ai bi = Inr (Some r)"
  shows "2 \<le> length (coords r) \<and> hd (coords r) = prevCoord \<and> last (coords r) = currCoord \<and> isTrailSnapped r"
proof -
  from assms obtain legA legB where r: "r = \<lparr>coords = legA @ drop 1 legB, isTrailSnapped = True\<rparr>"
    and a: "2 \<le> length legA" "hd legA = prevCoord" and b: "2 \<le> length legB" "last legB = currCoord"
    by (auto simp: junctionAt_def bindE_def Let_def hd_extractTrailSlice last_extractTrailSlice
        simp del: drop_Suc_Cons One_nat_def split: if_splits sum.splits)
  from stitched_ends [OF a(1) b(1)] a b r show ?thesis by simp
qed

lemma twoHop_ends:
  assumes "twoHop env prevCoord currCoord pcs ccs = Inr (Some r)"
  shows "2 \<le> length (coords r) \<and> hd (coords r) = prevCoord \<and> last (coords r) = currCoord \<and> isTrailSnapped r"
proof -
  from assms obtain pc cc ai bi where "junctionAt env prevCoord currCoord pc cc ai bi = Inr (Some r)"
    unfolding twoHop_def
    by (fastforce dest!: forEachUntil_Some split: if_splits)
  then show ?thesis by (rule junctionAt_ends)
qed

lemma tryConnectTrails_ends:
  assumes "tryConnectTrails env prevRef currRef prevCoord currCoord = Inr (Some r)"
  shows "2 \<le> length (coords r) \<and> hd (coords r) = prevCoord \<and> last (coords r) = currCoord \<and> isTrailSnapped r"
  using assms
  by (auto simp: tryConnectTrails_def bindE_Inr_iff Let_def split: option.splits prod.splits
      dest!: forEachUntil_Some singleTrail_ends twoHop_ends)


lemma pixelDistance_le_iff:
  "0 \<le> r \<Longrightarrow> pixelDistance a b \<le> r \<longleftrightarrow> (fst a - fst b) * (fst a - fst b) + (snd a - snd b) * (snd a - snd b) \<le> r * r"
  unfolding pixelDistance_def Let_def
  by (metis power2_eq_square real_le_lsqrt sqrt_le_D)

text \<open>Unfolding the engine and the small map on concrete inputs.\<close>

lemmas flat_simps = flatEnv_def flatProject_def flatPoint_def flatLineString_def flatDistance_def
  inBox_def lineFeature_def

lemmas engine_simps = getTrailSegmentBetween_def trailsMatch_def tryConnectTrails_def
  singleTrail_def collectStep_def twoHop_def junctionAt_def projectOntoTrail_def distMeters_def
  boundsStep_def withinBounds_def extractTrailSlice_def jsAt_def bindE_def straightLine_def
  SNAP_PIXEL_RADIUS_def MERGE_GAP_TOLERANCE_METERS_def pixelDistance_le_iff Let_def

subsection \<open>The snapping loop keeps the nearest candidate\<close>

lemma snapStep_skip:
  assumes "snapStep env pixel cp b trail = Inr b1"
    and "\<not> (geomType trail = ''LineString'' \<and> 2 \<le> length (geomCoordinates trail))"
  shows "b1 = b"
  using assms by (auto simp: snapStep_def split: if_splits)

lemma snapStep_valid:
  assumes "snapStep env pixel cp b trail = Inr b1"
    and "geomType trail = ''LineString''" and "2 \<le> length (geomCoordinates trail)"
  shows "\<exists>n d. snapCandidate env pixel cp trail = Inr (n, d) \<and>
           b1 = (if (case b of None \<Rightarrow> True | Some b' \<Rightarrow> d < bestPixelDist b')
                 then Some \<lparr>bestPoint = n, bestPixelDist = d, bestTrail = trail\<rparr> else b)"
  using assms by (auto simp: snapStep_def bindE_Inr_iff split: if_splits)

lemma snapCandidate_dist:
  assumes "snapCandidate env pixel cp trail = Inr (n, d)"
  shows "\<exists>sp. map_project env (nearCoordinates n) = Inr sp \<and> d = pixelDistance sp pixel"
  using assms by (auto simp: snapCandidate_def bindE_Inr_iff)

lemma snapLoop_best:
  assumes "foldE (snapStep env pixel cp) None trails = Inr (Some b)"
  shows "\<exists>sp. map_project env (nearCoordinates (bestPoint b)) = Inr sp
           \<and> bestPixelDist b = pixelDistance sp pixel"
proof -
  let ?P = "\<lambda>b. \<forall>b'. b = Some b' \<longrightarrow>
      (\<exists>sp. map_project env (nearCoordinates (bestPoint b')) = Inr sp
         \<and> bestPixelDist b' = pixelDistance sp pixel)"
  have "?P (Some b)"
  proof (rule foldE_invariant [where P = ?P, OF assms])
    show "?P None" by simp
  next
    fix a x c
    assume a: "?P a" and step: "snapStep env pixel cp a x = Inr c"
    show "?P c"
    proof (cases "geomType x = ''LineString'' \<and> 2 \<le> length (geomCoordinates x)")
      case False
      from snapStep_skip [OF step False] a show ?thesis by simp
    next
      case True
      with snapStep_valid [OF step] obtain n d
        where cand: "snapCandidate env pixel cp x = Inr (n, d)"
          and c: "c = (if (case a of None \<Rightarrow> True | Some b' \<Rightarrow> d < bestPixelDist b')
                 then Some \<lparr>bestPoint = n, bestPixelDist = d, bestTrail = x\<rparr> else a)"
        by blast
      from snapCandidate_dist [OF cand] c a show ?thesis
        by (auto split: if_splits)
    qed
  qed
  then show ?thesis by simp
qed

lemma snapLoop_min:
  assumes "foldE (snapStep env pixel cp) b0 trails = Inr b"
  shows "(\<forall>b0'. b0 = Some b0' \<longrightarrow> (\<exists>b'. b = Some b' \<and> bestPixelDist b' \<le> bestPixelDist b0'))
    \<and> (\<forall>trail\<in>set trails. geomType trail = ''LineString'' \<longrightarrow> 2 \<le> length (geomCoordinates trail) \<longrightarrow>
         (\<exists>n d b'. snapCandidate env pixel cp trail = Inr (n, d) \<and> b = Some b' \<and> bestPixelDist b' \<le> d))"
  using assms
proof (induction trails arbitrary: b0)
  case Nil
  then show ?case by simp
next
  case (Cons t ts)
  from Cons.prems obtain b1 where step: "snapStep env pixel cp b0 t = Inr b1"
    and rest: "foldE (snapStep env pixel cp) b1 ts = Inr b"
    by (auto split: sum.splits)
  note IH = Cons.IH [OF rest]
  show ?case
  proof (cases "geomType t = ''LineString'' \<and> 2 \<le> length (geomCoordinates t)")
    case False
    from snapStep_skip [OF step False] have "b1 = b0" .
    with IH False show ?thesis by auto
  next
    case True
    with snapStep_valid [OF step] obtain n d
      where cand: "snapCandidate env pixel cp t = Inr (n, d)"
        and upd: "b1 = (if (case b0 of None \<Rightarrow> True | Some b' \<Rightarrow> d < bestPixelDist b')
                 then Some \<lparr>bestPoint = n, bestPixelDist = d, bestTrail = t\<rparr> else b0)"
      by blast
    from upd obtain b1' where b1: "b1 = Some b1'" and le_d: "bestPixelDist b1' \<le> d"
      and le_b0: "\<forall>b0'. b0 = Some b0' \<longrightarrow> bestPixelDist b1' \<le> bestPixelDist b0'"
      by (cases b0) (auto split: if_splits)
    from IH b1 obtain b' where b': "b = Some b'" "bestPixelDist b' \<le> bestPixelDist b1'"
      by auto
    have old: "\<forall>b0'. b0 = Some b0' \<longrightarrow> (\<exists>b'. b = Some b' \<and> bestPixelDist b' \<le> bestPixelDist b0')"
      using b' le_b0 by fastforce
    have hd: "\<exists>n d b'. snapCandidate env pixel cp t = Inr (n, d) \<and> b = Some b' \<and> bestPixelDist b' \<le> d"
      using b' le_d cand by fastforce
    from IH have tl: "\<forall>trail\<in>set ts. geomType trail = ''LineString'' \<longrightarrow> 2 \<le> length (geomCoordinates trail) \<longrightarrow>
         (\<exists>n d b'. snapCandidate env pixel cp trail = Inr (n, d) \<and> b = Some b' \<and> bestPixelDist b' \<le> d)"
      by simp
    from old hd tl show ?thesis by simp
  qed
qed

lemmas snap_simps = snapToTrail_def snapStep_def snapCandidate_def unsnapped_def bindE_def
  SNAP_PIXEL_RADIUS_def pixelDistance_le_iff Let_def

subsection \<open>The drawing session\<close>








lemmas session_simps = handleMapClickForRoute_def startRouteDrawing_def setActivePointType_def
  initialSession_def unsnapped_def getTrailSegmentBetween_def straightLine_def refAt_def
  typeAt_def jsAt_def bindE_def Let_def


subsection \<open>Assembling the main route\<close>

lemma noAdjacentDuplicates_append:
  assumes "noAdjacentDuplicates xs" and "noAdjacentDuplicates ys"
    and "xs \<noteq> [] \<Longrightarrow> ys \<noteq> [] \<Longrightarrow> \<not> nearDuplicate (last xs) (hd ys)"
  shows "noAdjacentDuplicates (xs @ ys)"
  using assms
proof (induction xs)
  case Nil
  then show ?case by simp
next
  case (Cons a xs)
  show ?case
  proof (cases xs)
    case Nil
    with Cons.prems show ?thesis by (cases ys) simp_all
  next
    case inner: (Cons b cs)
    with Cons.prems have "noAdjacentDuplicates xs" and "\<not> nearDuplicate a b"
      and "ys \<noteq> [] \<Longrightarrow> \<not> nearDuplicate (last xs) (hd ys)"
      by simp_all
    with Cons.IH Cons.prems(2) have "noAdjacentDuplicates (xs @ ys)" by blast
    with inner \<open>\<not> nearDuplicate a b\<close> show ?thesis by simp
  qed
qed

lemma appendSegment_result:
  assumes "appendSegment acc seg = Inr out" and "acc \<noteq> []" and "coords seg \<noteq> []"
  shows "out = acc @ (if nearDuplicate (last acc) (hd (coords seg))
                      then tl (coords seg) else coords seg)"
  using assms
  by (cases "last acc"; cases "hd (coords seg)")
     (auto simp: appendSegment_def bindE_def Let_def drop_Suc not_le split: if_splits)

lemma foldE_appendSegment_nodup:
  assumes "foldE appendSegment acc segs = Inr out"
    and "acc \<noteq> []" and "noAdjacentDuplicates acc"
    and "\<forall>seg\<in>set segs. 2 \<le> length (coords seg) \<and> noAdjacentDuplicates (coords seg)"
    and "segs \<noteq> [] \<Longrightarrow> last acc = hd (coords (hd segs))
           \<or> \<not> nearDuplicate (last acc) (hd (coords (hd segs)))"
    and "segmentsChained segs"
  shows "noAdjacentDuplicates out"
  using assms
proof (induction segs arbitrary: acc)
  case Nil
  then show ?case by simp
next
  case (Cons seg segs)
  let ?cs = "coords seg"
  from Cons.prems(4) have len: "2 \<le> length ?cs" and nd: "noAdjacentDuplicates ?cs" by auto
  from len obtain a b rest where cs: "?cs = a # b # rest"
    by (cases ?cs; cases "tl ?cs") auto
  from Cons.prems(1) obtain acc' where step: "appendSegment acc seg = Inr acc'"
    and rest: "foldE appendSegment acc' segs = Inr out"
    by (auto split: sum.splits)
  from appendSegment_result [OF step Cons.prems(2)] cs
  have acc': "acc' = acc @ (if nearDuplicate (last acc) a then b # rest else a # b # rest)"
    by simp
  from Cons.prems(5) cs have join: "last acc = a \<or> \<not> nearDuplicate (last acc) a" by simp
  have ne: "acc' \<noteq> []" using acc' Cons.prems(2) by simp
  have last: "last acc' = last ?cs" using acc' cs by simp
  have nodup: "noAdjacentDuplicates acc'"
  proof (cases "nearDuplicate (last acc) a")
    case True
    with join have "last acc = a" by simp
    with nd cs have "\<not> nearDuplicate (last acc) (hd (b # rest))" by simp
    moreover from nd cs have "noAdjacentDuplicates (b # rest)" by simp
    ultimately show ?thesis
      using True acc' Cons.prems(3) by (simp add: noAdjacentDuplicates_append)
  next
    case False
    with nd cs acc' Cons.prems(3) show ?thesis
      by (simp add: noAdjacentDuplicates_append)
  qed
  show ?case
  proof (rule Cons.IH [OF rest ne nodup])
    show "\<forall>seg\<in>set segs. 2 \<le> length (coords seg) \<and> noAdjacentDuplicates (coords seg)"
      using Cons.prems(4) by simp
    show "last acc' = hd (coords (hd segs))
           \<or> \<not> nearDuplicate (last acc') (hd (coords (hd segs)))" if "segs \<noteq> []"
      using that Cons.prems(6) last by (cases segs) auto
    show "segmentsChained segs"
      using Cons.prems(6) by (cases segs) auto
  qed
qed

lemma run_three_vertices:
  "runEvents (flatEnv []) initialSession
     [StartRouteDrawing, MapClick 0 0 True, MapClick 1 0 True, MapClick 1 1 True]
   = \<lparr>isDrawingRoute = True, routeCoords = [Pt 0 0, Pt 1 0, Pt 1 1],
      routeSnapped = [False, False, False], routeVertexTypes = [Route, Route, Route],
      routeTrailRefs = [None, None, None],
      routeSegments = [\<lparr>coords = [Pt 0 0, Pt 1 0], isTrailSnapped = False\<rparr>,
                       \<lparr>coords = [Pt 1 0, Pt 1 1], isTrailSnapped = False\<rparr>],
      routeDayhikeSegments = [], currentPointType = Route\<rparr>"
  by (simp add: session_simps flat_simps)

subsection \<open>Merging fragments\<close>

lemma jsAt_first: "cs \<noteq> [] \<Longrightarrow> jsAt cs 0 = hd cs"
  by (cases cs) (simp_all add: jsAt_def)

lemma jsAt_last: "cs \<noteq> [] \<Longrightarrow> jsAt cs (int (length cs) - 1) = last cs"
  by (cases cs rule: rev_cases) (simp_all add: jsAt_def nth_append)

lemma mergeTrailFragments_joins:
  assumes a: "2 \<le> length coordsA" and b: "2 \<le> length coordsB"
    and d1: "distMeters env (last coordsA) (hd coordsB) = Inr dAEndBStart"
    and d2: "distMeters env (last coordsA) (last coordsB) = Inr dAEndBEnd"
    and d3: "distMeters env (last coordsB) (hd coordsA) = Inr dBEndAStart"
    and d4: "distMeters env (hd coordsB) (hd coordsA) = Inr dBStartAStart"
    and ls: "\<forall>cs. 2 \<le> length cs \<longrightarrow> turf_lineString env cs = Inr cs"
  shows "mergeTrailFragments env coordsA coordsB =
     Inr (if dAEndBStart \<le> MERGE_GAP_TOLERANCE_METERS then Some (coordsA @ tl coordsB)
          else if dAEndBEnd \<le> MERGE_GAP_TOLERANCE_METERS then Some (coordsA @ tl (rev coordsB))
          else if dBEndAStart \<le> MERGE_GAP_TOLERANCE_METERS then Some (coordsB @ tl coordsA)
          else if dBStartAStart \<le> MERGE_GAP_TOLERANCE_METERS then Some (rev coordsB @ tl coordsA)
          else None)"
proof -
  from a b have ne: "coordsA \<noteq> []" "coordsB \<noteq> []" by auto
  have l: "turf_lineString env (coordsA @ tl coordsB) = Inr (coordsA @ tl coordsB)"
    "turf_lineString env (coordsA @ tl (rev coordsB)) = Inr (coordsA @ tl (rev coordsB))"
    "turf_lineString env (coordsB @ tl coordsA) = Inr (coordsB @ tl coordsA)"
    "turf_lineString env (rev coordsB @ tl coordsA) = Inr (rev coordsB @ tl coordsA)"
    using a b ls by simp_all
  show ?thesis
    unfolding mergeTrailFragments_def Let_def
    using ne
    by (simp add: jsAt_first jsAt_last d1 d2 d3 d4 l bindE_def drop_Suc)
qed

lemma merge_failure_caller:
  assumes m: "trailsMatch (Some p) (Some c) = Inr Related"
    and f: "mergeTrailFragments env (trailCoords p) (trailCoords c) = Inr None"
  shows "getTrailSegmentBetween env (Some p) (Some c) prevCoord currCoord =
     (case tryConnectTrails env (Some p) (Some c) prevCoord currCoord of
        Inl e \<Rightarrow> Inl e
      | Inr None \<Rightarrow> Inr (straightLine prevCoord currCoord)
      | Inr (Some r) \<Rightarrow> Inr r)"
proof -
  from f have "tileBoundarySlice env p c prevCoord currCoord = Inr None"
    by (simp add: tileBoundarySlice_def bindE_def)
  with m show ?thesis
    by (simp add: getTrailSegmentBetween_def bindE_def split: sum.splits option.splits)
qed

subsection \<open>Which calls can throw\<close>

lemma coordsEqual_total: "a \<noteq> Undef \<Longrightarrow> b \<noteq> Undef \<Longrightarrow> \<exists>r. coordsEqual a b = Inr r"
  by (cases a; cases b) simp_all

lemma jsAt_in_set: "0 \<le> i \<Longrightarrow> i < int (length cs) \<Longrightarrow> jsAt cs i \<in> set cs"
  by (simp add: jsAt_def)

lemma jsAt_wellFormed:
  "Undef \<notin> set cs \<Longrightarrow> 0 \<le> i \<Longrightarrow> i < int (length cs) \<Longrightarrow> jsAt cs i \<noteq> Undef"
  using jsAt_in_set by metis

lemma trailsMatch_total:
  assumes "wellFormedRef refA" and "wellFormedRef refB"
  shows "\<exists>m. trailsMatch refA refB = Inr m"
proof (cases refA)
  case None
  then show ?thesis by (simp add: trailsMatch_def)
next
  case A: (Some a)
  show ?thesis
  proof (cases refB)
    case None
    with A show ?thesis by (simp add: trailsMatch_def)
  next
    case B: (Some b)
    from assms A B have wf: "Undef \<notin> set (trailCoords a)" "Undef \<notin> set (trailCoords b)"
      by (simp_all add: wellFormedRef_def)
    show ?thesis
    proof (cases "length (trailCoords a) > 0 \<and> length (trailCoords b) > 0")
      case False
      with A B show ?thesis by (auto simp: trailsMatch_def bindE_def Let_def)
    next
      case True
      with wf have "jsAt (trailCoords a) 0 \<noteq> Undef" "jsAt (trailCoords b) 0 \<noteq> Undef"
        "jsAt (trailCoords a) (int (length (trailCoords a)) - 1) \<noteq> Undef"
        "jsAt (trailCoords b) (int (length (trailCoords b)) - 1) \<noteq> Undef"
        by (simp_all add: jsAt_wellFormed)
      then obtain f l where "coordsEqual (jsAt (trailCoords a) 0) (jsAt (trailCoords b) 0) = Inr f"
        "coordsEqual (jsAt (trailCoords a) (int (length (trailCoords a)) - 1))
           (jsAt (trailCoords b) (int (length (trailCoords b)) - 1)) = Inr l"
        using coordsEqual_total by metis
      with A B True show ?thesis by (simp add: trailsMatch_def bindE_def Let_def)
    qed
  qed
qed

lemma projectOntoTrail_total:
  assumes wb: "wellBehaved env"
    and tr: "2 \<le> length (geomCoordinates trail)" "Undef \<notin> set (geomCoordinates trail)"
    and pts: "prevPt \<noteq> Undef" "currPt \<noteq> Undef"
  shows "\<exists>r. projectOntoTrail env p1 p2 prevPt currPt trail = Inr r"
proof -
  from wb tr obtain l where l: "turf_lineString env (geomCoordinates trail) = Inr l"
    "2 \<le> length l" "Undef \<notin> set l"
    unfolding wellBehaved_def by blast
  from wb l(2,3) pts obtain n1 n2 where n: "turf_nearestPointOnLine env l prevPt = Inr n1"
    "nearCoordinates n1 \<noteq> Undef" "turf_nearestPointOnLine env l currPt = Inr n2"
    "nearCoordinates n2 \<noteq> Undef"
    unfolding wellBehaved_def by metis
  from wb n(2,4) obtain q1 q2 where q: "map_project env (nearCoordinates n1) = Inr q1"
    "map_project env (nearCoordinates n2) = Inr q2"
    unfolding wellBehaved_def by metis
  from l(1) n(1,3) q show ?thesis by (simp add: projectOntoTrail_def bindE_def)
qed

lemma boundsStep_total: "c \<noteq> Undef \<Longrightarrow> \<exists>b'. boundsStep b c = Inr b'"
  by (cases c; cases b) (auto simp: boundsStep_def)

lemma singleTrail_total:
  assumes wb: "wellBehaved env" and wf: "Undef \<notin> set (geomCoordinates trail)"
    and cs: "prevCoord \<noteq> Undef" "currCoord \<noteq> Undef"
    and pts: "prevPt \<noteq> Undef" "currPt \<noteq> Undef"
  shows "\<exists>r. singleTrail env prevCoord currCoord p1 p2 prevPt currPt trail = Inr r"
proof (cases "geomType trail \<noteq> ''LineString'' \<or> length (geomCoordinates trail) < 2")
  case True
  then show ?thesis by (auto simp: singleTrail_def)
next
  case False
  then have len: "2 \<le> length (geomCoordinates trail)" by simp
  have "\<exists>b. foldE boundsStep None (geomCoordinates trail) = Inr b"
    by (rule foldE_total) (use wf boundsStep_total in metis)
  then obtain bnds where bnds: "foldE boundsStep None (geomCoordinates trail) = Inr bnds" ..
  from cs obtain px py cx cy where pc: "prevCoord = Pt px py" "currCoord = Pt cx cy"
    by (cases prevCoord; cases currCoord) auto
  from projectOntoTrail_total [OF wb len wf pts]
  obtain r where r: "projectOntoTrail env p1 p2 prevPt currPt trail = Inr r" by blast
  from False bnds pc r show ?thesis
    by (cases r) (auto simp: singleTrail_def bindE_def Let_def)
qed

lemma collectStep_total:
  assumes wb: "wellBehaved env" and wf: "Undef \<notin> set (geomCoordinates (snd kt))"
    and pts: "prevPt \<noteq> Undef" "currPt \<noteq> Undef"
  shows "\<exists>r. collectStep env p1 p2 prevPt currPt acc kt = Inr r"
proof (cases "geomType (snd kt) \<noteq> ''LineString'' \<or> length (geomCoordinates (snd kt)) < 2")
  case True
  then show ?thesis by (auto simp: collectStep_def)
next
  case False
  then have len: "2 \<le> length (geomCoordinates (snd kt))" by simp
  from projectOntoTrail_total [OF wb len wf pts]
  obtain r where "projectOntoTrail env p1 p2 prevPt currPt (snd kt) = Inr r" by blast
  with False show ?thesis
    by (cases r) (auto simp: collectStep_def bindE_def Let_def)
qed

lemma collectStep_trails:
  assumes "collectStep env p1 p2 prevPt currPt acc kt = Inr acc'"
    and "\<forall>cand\<in>set (fst acc) \<union> set (snd acc). Undef \<notin> set (geomCoordinates (candTrail cand))"
    and "Undef \<notin> set (geomCoordinates (snd kt))"
  shows "\<forall>cand\<in>set (fst acc') \<union> set (snd acc'). Undef \<notin> set (geomCoordinates (candTrail cand))"
  using assms
  by (auto simp: collectStep_def bindE_Inr_iff Let_def split: if_splits)

lemma distMeters_total:
  assumes "wellBehaved env" and "a \<noteq> Undef" and "b \<noteq> Undef"
  shows "\<exists>d. distMeters env a b = Inr d"
proof -
  from assms obtain pa pb where p: "turf_point env a = Inr pa" "pa \<noteq> Undef"
    "turf_point env b = Inr pb" "pb \<noteq> Undef"
    unfolding wellBehaved_def by metis
  with assms(1) obtain d where "turf_distance env pa pb = Inr d"
    unfolding wellBehaved_def by metis
  with p show ?thesis by (simp add: distMeters_def bindE_def)
qed

lemma junctionAt_total:
  assumes wb: "wellBehaved env"
    and wf: "Undef \<notin> set (geomCoordinates (candTrail pc))"
      "Undef \<notin> set (geomCoordinates (candTrail cc))"
    and ai: "ai \<in> set [0..int (length (geomCoordinates (candTrail pc))) - 1]"
    and bi: "bi \<in> set [0..int (length (geomCoordinates (candTrail cc))) - 1]"
  shows "\<exists>r. junctionAt env prevCoord currCoord pc cc ai bi = Inr r"
proof -
  from wf ai bi have "jsAt (geomCoordinates (candTrail pc)) ai \<noteq> Undef"
    "jsAt (geomCoordinates (candTrail cc)) bi \<noteq> Undef"
    by (simp_all add: jsAt_wellFormed)
  from distMeters_total [OF wb this] obtain d where
    "distMeters env (jsAt (geomCoordinates (candTrail pc)) ai)
       (jsAt (geomCoordinates (candTrail cc)) bi) = Inr d" ..
  then show ?thesis by (simp add: junctionAt_def bindE_def Let_def)
qed

lemma twoHop_total:
  assumes wb: "wellBehaved env"
    and wfp: "\<forall>cand\<in>set prevCandidates. Undef \<notin> set (geomCoordinates (candTrail cand))"
    and wfc: "\<forall>cand\<in>set currCandidates. Undef \<notin> set (geomCoordinates (candTrail cand))"
  shows "\<exists>r. twoHop env prevCoord currCoord prevCandidates currCandidates = Inr r"
  unfolding twoHop_def
proof (rule forEachUntil_total)
  fix pc
  assume pc: "pc \<in> set prevCandidates"
  show "\<exists>r. forEachUntil (\<lambda>cc.
         if candKey pc = candKey cc then Inr None
         else
           forEachUntil (\<lambda>ai.
             forEachUntil (\<lambda>bi. junctionAt env prevCoord currCoord pc cc ai bi)
               [0..int (length (geomCoordinates (candTrail cc))) - 1])
             [0..int (length (geomCoordinates (candTrail pc))) - 1])
         currCandidates = Inr r"
  proof (rule forEachUntil_total)
    fix cc
    assume cc: "cc \<in> set currCandidates"
    have "\<exists>r. forEachUntil (\<lambda>ai.
             forEachUntil (\<lambda>bi. junctionAt env prevCoord currCoord pc cc ai bi)
               [0..int (length (geomCoordinates (candTrail cc))) - 1])
             [0..int (length (geomCoordinates (candTrail pc))) - 1] = Inr r"
    proof (rule forEachUntil_total)
      fix ai
      assume ai: "ai \<in> set [0..int (length (geomCoordinates (candTrail pc))) - 1]"
      show "\<exists>r. forEachUntil (\<lambda>bi. junctionAt env prevCoord currCoord pc cc ai bi)
               [0..int (length (geomCoordinates (candTrail cc))) - 1] = Inr r"
      proof (rule forEachUntil_total)
        fix bi
        assume bi: "bi \<in> set [0..int (length (geomCoordinates (candTrail cc))) - 1]"
        from wfp pc wfc cc show "\<exists>r. junctionAt env prevCoord currCoord pc cc ai bi = Inr r"
          by (intro junctionAt_total [OF wb _ _ ai bi]) auto
      qed
    qed
    then show "\<exists>r. (if candKey pc = candKey cc then Inr None
         else
           forEachUntil (\<lambda>ai.
             forEachUntil (\<lambda>bi. junctionAt env prevCoord currCoord pc cc ai bi)
               [0..int (length (geomCoordinates (candTrail cc))) - 1])
             [0..int (length (geomCoordinates (candTrail pc))) - 1]) = Inr r"
      by simp
  qed
qed

lemma wb_project: "wellBehaved env \<Longrightarrow> c \<noteq> Undef \<Longrightarrow> \<exists>p. map_project env c = Inr p"
  by (simp add: wellBehaved_def)

lemma wb_query:
  "wellBehaved env \<Longrightarrow> \<exists>fs. map_queryRenderedFeatures env box = Inr fs
     \<and> (\<forall>f\<in>set fs. Undef \<notin> set (geomCoordinates f))"
  unfolding wellBehaved_def by blast

lemma wb_point:
  "wellBehaved env \<Longrightarrow> c \<noteq> Undef \<Longrightarrow> \<exists>pt. turf_point env c = Inr pt \<and> pt \<noteq> Undef"
  by (simp add: wellBehaved_def)

lemma tryConnectTrails_total:
  assumes wb: "wellBehaved env" and cs: "prevCoord \<noteq> Undef" "currCoord \<noteq> Undef"
  shows "\<exists>r. tryConnectTrails env prevRef currRef prevCoord currCoord = Inr r"
proof -
  from wb_project [OF wb cs(1)] obtain p1 where p1: "map_project env prevCoord = Inr p1" ..
  from wb_project [OF wb cs(2)] obtain p2 where p2: "map_project env currCoord = Inr p2" ..
  let ?box = "((min (fst p1) (fst p2) - SNAP_PIXEL_RADIUS, min (snd p1) (snd p2) - SNAP_PIXEL_RADIUS),
               (max (fst p1) (fst p2) + SNAP_PIXEL_RADIUS, max (snd p1) (snd p2) + SNAP_PIXEL_RADIUS))"
  from wb_query [OF wb, of ?box] obtain fs where fs: "map_queryRenderedFeatures env ?box = Inr fs"
    and wfs: "\<forall>f\<in>set fs. Undef \<notin> set (geomCoordinates f)"
    by blast
  from wb_point [OF wb cs(1)] obtain prevPt where prevPt: "turf_point env prevCoord = Inr prevPt"
    "prevPt \<noteq> Undef" by blast
  from wb_point [OF wb cs(2)] obtain currPt where currPt: "turf_point env currCoord = Inr currPt"
    "currPt \<noteq> Undef" by blast
  have "\<exists>r. forEachUntil (singleTrail env prevCoord currCoord p1 p2 prevPt currPt) fs = Inr r"
  proof (rule forEachUntil_total)
    fix x
    assume "x \<in> set fs"
    with wfs have "Undef \<notin> set (geomCoordinates x)" by blast
    from singleTrail_total [OF wb this cs prevPt(2) currPt(2)]
    show "\<exists>r. singleTrail env prevCoord currCoord p1 p2 prevPt currPt x = Inr r" .
  qed
  then obtain single where single:
    "forEachUntil (singleTrail env prevCoord currCoord p1 p2 prevPt currPt) fs = Inr single" ..
  have start: "tryConnectTrails env prevRef currRef prevCoord currCoord =
    (case single of
       Some seg \<Rightarrow> Inr (Some seg)
     | None \<Rightarrow>
         (case foldE (collectStep env p1 p2 prevPt currPt) ([], []) (zip [0..<length fs] fs) of
            Inl e \<Rightarrow> Inl e
          | Inr (prevCandidates, currCandidates) \<Rightarrow>
              twoHop env prevCoord currCoord prevCandidates currCandidates))"
    unfolding tryConnectTrails_def Let_def p1 p2
    by (simp add: bindE_def fs prevPt(1) currPt(1) single)
  show ?thesis
  proof (cases single)
    case (Some seg)
    with start show ?thesis by simp
  next
    case None
    let ?kts = "zip [0..<length fs] fs"
    have mem: "Undef \<notin> set (geomCoordinates (snd kt))" if "kt \<in> set ?kts" for kt
    proof -
      from that have "(fst kt, snd kt) \<in> set ?kts" by simp
      then have "snd kt \<in> set fs" by (rule set_zip_rightD)
      with wfs show ?thesis by blast
    qed
    have "\<exists>r. foldE (collectStep env p1 p2 prevPt currPt) ([], []) ?kts = Inr r"
    proof (rule foldE_total)
      fix a x
      assume "x \<in> set ?kts"
      from collectStep_total [OF wb mem [OF this] prevPt(2) currPt(2)]
      show "\<exists>b. collectStep env p1 p2 prevPt currPt a x = Inr b" .
    qed
    then obtain cands where cands:
      "foldE (collectStep env p1 p2 prevPt currPt) ([], []) ?kts = Inr cands" ..
    have wf: "\<forall>cand\<in>set (fst cands) \<union> set (snd cands).
        Undef \<notin> set (geomCoordinates (candTrail cand))"
    proof (rule foldE_invariant [where P = "\<lambda>acc. \<forall>cand\<in>set (fst acc) \<union> set (snd acc).
        Undef \<notin> set (geomCoordinates (candTrail cand))", OF cands])
      show "\<forall>cand\<in>set (fst ([], [])) \<union> set (snd ([], [])).
        Undef \<notin> set (geomCoordinates (candTrail cand))" by simp
    next
      fix a x b
      assume a: "\<forall>cand\<in>set (fst a) \<union> set (snd a). Undef \<notin> set (geomCoordinates (candTrail cand))"
        and x: "x \<in> set ?kts" and st: "collectStep env p1 p2 prevPt currPt a x = Inr b"
      from collectStep_trails [OF st a mem [OF x]]
      show "\<forall>cand\<in>set (fst b) \<union> set (snd b). Undef \<notin> set (geomCoordinates (candTrail cand))" .
    qed
    then have wf1: "\<forall>cand\<in>set (fst cands). Undef \<notin> set (geomCoordinates (candTrail cand))"
      and wf2: "\<forall>cand\<in>set (snd cands). Undef \<notin> set (geomCoordinates (candTrail cand))"
      by simp_all
    from twoHop_total [OF wb wf1 wf2]
    obtain r where "twoHop env prevCoord currCoord (fst cands) (snd cands) = Inr r" by blast
    with start None cands show ?thesis
      by (simp split: prod.splits)
  qed
qed

lemma getTrailSegmentBetween_expand:
  assumes "trailsMatch (Some p) (Some c) = Inr m"
  shows "getTrailSegmentBetween env (Some p) (Some c) prevCoord currCoord =
    (if m = Same
     then Inr \<lparr>coords = extractTrailSlice (trailCoords p) prevCoord (indexOnLine p)
                          currCoord (indexOnLine c),
               isTrailSnapped = True\<rparr>
     else
       (case (if m = Related
              then (case tileBoundarySlice env p c prevCoord currCoord of
                      Inl err \<Rightarrow> None | Inr r \<Rightarrow> r)
              else None) of
          Some r \<Rightarrow> Inr r
        | None \<Rightarrow>
            (case tryConnectTrails env (Some p) (Some c) prevCoord currCoord of
               Inl e \<Rightarrow> Inl e
             | Inr None \<Rightarrow> Inr (straightLine prevCoord currCoord)
             | Inr (Some r) \<Rightarrow> Inr r)))"
  using assms
  by (simp add: getTrailSegmentBetween_def bindE_def Let_def length_extractTrailSlice
      split: option.splits sum.splits)

lemma nearestVertex_defined:
  "nearCoordinates (fst b) \<noteq> Undef \<Longrightarrow> nearCoordinates (fst (nearestVertex x y cs k b)) \<noteq> Undef"
  by (induction x y cs k b rule: nearestVertex.induct) simp_all

lemma flatNearest_total:
  assumes "2 \<le> length l" and "Undef \<notin> set l" and "pt \<noteq> Undef"
  shows "\<exists>n. flatNearest l pt = Inr n \<and> nearCoordinates n \<noteq> Undef"
proof -
  from assms(1,2) obtain cx cy cs where l: "l = Pt cx cy # cs"
    by (cases l) (auto, metis coord.exhaust)
  from assms(3) obtain x y where pt: "pt = Pt x y" by (cases pt) auto
  show ?thesis unfolding l pt by (simp add: nearestVertex_defined)
qed

lemma flatEnv_wellBehaved:
  assumes "\<forall>f\<in>set trails. Undef \<notin> set (geomCoordinates f)"
  shows "wellBehaved (flatEnv trails\<lparr>turf_lineSlice := slice\<rparr>)"
proof -
  have "c \<noteq> Undef \<Longrightarrow> \<exists>p. flatProject c = Inr p" for c
    by (cases c) (simp_all add: flatProject_def)
  moreover have "c \<noteq> Undef \<Longrightarrow> \<exists>pt. flatPoint c = Inr pt \<and> pt \<noteq> Undef" for c
    by (cases c) (simp_all add: flatPoint_def)
  moreover have "a \<noteq> Undef \<Longrightarrow> b \<noteq> Undef \<Longrightarrow> \<exists>d. flatDistance a b = Inr d" for a b
    by (cases a; cases b) (simp_all add: flatDistance_def)
  moreover have "\<forall>f\<in>set (filter P trails). Undef \<notin> set (geomCoordinates f)" for P
    using assms by simp
  ultimately show ?thesis
    unfolding wellBehaved_def
    by (simp add: flatEnv_def flatLineString_def flatNearest_total)
qed

section \<open>The claims\<close>

text \<open>
  C1. Whatever strategy produced it (unsnapped endpoint, same-trail index slice,
  tile-boundary merge and slice, corridor connect, two-hop stitch or straight-line
  fallback), the segment that \<open>getTrailSegmentBetween\<close> returns starts with
  \<open>prevCoord\<close> itself and ends with \<open>currCoord\<close> itself.
\<close>

theorem getTrailSegmentBetween_endpoints:
  assumes "getTrailSegmentBetween env prevRef currRef prevCoord currCoord = Inr seg"
  shows "coords seg \<noteq> [] \<and> hd (coords seg) = prevCoord \<and> last (coords seg) = currCoord"
proof -
  have ends: "2 \<le> length (coords r) \<and> hd (coords r) = prevCoord \<and> last (coords r) = currCoord
      \<Longrightarrow> coords r \<noteq> [] \<and> hd (coords r) = prevCoord \<and> last (coords r) = currCoord" for r :: segment
    by auto
  consider (straight) "seg = straightLine prevCoord currCoord"
    | (same) i j t where "seg = \<lparr>coords = extractTrailSlice t prevCoord i currCoord j, isTrailSnapped = True\<rparr>"
    | (tile) p c r where "tileBoundarySlice env p c prevCoord currCoord = Inr (Some r)"
        "coords seg = coords r"
    | (corridor) r where "tryConnectTrails env prevRef currRef prevCoord currCoord = Inr (Some r)"
        "coords seg = coords r"
    using assms unfolding getTrailSegmentBetween_def Let_def
    by (auto simp: bindE_Inr_iff split: option.splits if_splits sum.splits)
  then show ?thesis
  proof cases
    case straight
    then show ?thesis by (simp add: straightLine_def)
  next
    case same
    then show ?thesis
      by (simp add: hd_extractTrailSlice last_extractTrailSlice) (simp add: extractTrailSlice_def)
  next
    case tile
    from tileBoundarySlice_ends [OF tile(1)] tile(2) show ?thesis by auto
  next
    case corridor
    from tryConnectTrails_ends [OF corridor(1)] corridor(2) show ?thesis by auto
  qed
qed

text \<open>
  The theorem at work on a two-hop stitch: two trails that meet at a junction, the
  first vertex on one and the second vertex on the other.
\<close>

theorem getTrailSegmentBetween_endpoints_witness:
  "getTrailSegmentBetween
     (flatEnv [lineFeature ''A'' [Pt 0 0, Pt 1 0, Pt 2 0], lineFeature ''B'' [Pt 2 0, Pt 2 3, Pt 5 5]])
     (Some \<lparr>trailCoords = [Pt 0 0, Pt 1 0, Pt 2 0], trailId = Null, trailName = Str ''A'', indexOnLine = 0\<rparr>)
     (Some \<lparr>trailCoords = [Pt 2 0, Pt 2 3, Pt 5 5], trailId = Null, trailName = Str ''B'', indexOnLine = 2\<rparr>)
     (Pt 0 0) (Pt 5 5)
   = Inr \<lparr>coords = [Pt 0 0, Pt 0 0, Pt 2 3, Pt 5 5, Pt 5 5], isTrailSnapped = True\<rparr>
   \<and> hd [Pt 0 0, Pt 0 0, Pt 2 3, Pt 5 5, Pt 5 5] = Pt 0 0
   \<and> last [Pt 0 0, Pt 0 0, Pt 2 3, Pt 5 5, Pt 5 5] = Pt 5 5"
proof -
  have run: "getTrailSegmentBetween
     (flatEnv [lineFeature ''A'' [Pt 0 0, Pt 1 0, Pt 2 0], lineFeature ''B'' [Pt 2 0, Pt 2 3, Pt 5 5]])
     (Some \<lparr>trailCoords = [Pt 0 0, Pt 1 0, Pt 2 0], trailId = Null, trailName = Str ''A'', indexOnLine = 0\<rparr>)
     (Some \<lparr>trailCoords = [Pt 2 0, Pt 2 3, Pt 5 5], trailId = Null, trailName = Str ''B'', indexOnLine = 2\<rparr>)
     (Pt 0 0) (Pt 5 5)
   = Inr \<lparr>coords = [Pt 0 0, Pt 0 0, Pt 2 3, Pt 5 5, Pt 5 5], isTrailSnapped = True\<rparr>"
    by (simp add: flat_simps engine_simps upto.simps)
  from getTrailSegmentBetween_endpoints [OF run] run show ?thesis by simp
qed

text \<open>
  C2 (as the code has it). Two vertices on the same trail at segment indices 5 and 9
  are joined by the start coordinate, the trail vertices 6, 7, 8 and 9, and the end
  coordinate, flagged trail-snapped: the vertex at the end index is part of the slice.
\<close>

theorem sameTrail_5_9:
  assumes "trailsMatch (Some p) (Some c) = Inr Same"
    and "indexOnLine p = 5" and "indexOnLine c = 9"
  shows "getTrailSegmentBetween env (Some p) (Some c) startCoord endCoord
    = Inr \<lparr>coords = [startCoord, jsAt (trailCoords p) 6, jsAt (trailCoords p) 7,
                      jsAt (trailCoords p) 8, jsAt (trailCoords p) 9, endCoord],
            isTrailSnapped = True\<rparr>"
proof -
  have "[6..9] = [6, 7, 8, 9::int]" by (simp add: upto.simps)
  then have "extractTrailSlice (trailCoords p) startCoord 5 endCoord 9
    = [startCoord, jsAt (trailCoords p) 6, jsAt (trailCoords p) 7,
       jsAt (trailCoords p) 8, jsAt (trailCoords p) 9, endCoord]"
    by (simp add: extractTrailSlice_def)
  with assms show ?thesis
    by (simp add: getTrailSegmentBetween_def bindE_def)
qed

text \<open>The same on a straight trail of eleven vertices.\<close>

theorem sameTrail_5_9_witness:
  "trailsMatch
     (Some \<lparr>trailCoords = [Pt 0 0, Pt 1 0, Pt 2 0, Pt 3 0, Pt 4 0, Pt 5 0, Pt 6 0, Pt 7 0, Pt 8 0, Pt 9 0, Pt 10 0],
            trailId = Num 7, trailName = Str ''Ridge'', indexOnLine = 5\<rparr>)
     (Some \<lparr>trailCoords = [Pt 0 0, Pt 1 0, Pt 2 0, Pt 3 0, Pt 4 0, Pt 5 0, Pt 6 0, Pt 7 0, Pt 8 0, Pt 9 0, Pt 10 0],
            trailId = Num 7, trailName = Str ''Ridge'', indexOnLine = 9\<rparr>) = Inr Same
   \<and> getTrailSegmentBetween (flatEnv [])
     (Some \<lparr>trailCoords = [Pt 0 0, Pt 1 0, Pt 2 0, Pt 3 0, Pt 4 0, Pt 5 0, Pt 6 0, Pt 7 0, Pt 8 0, Pt 9 0, Pt 10 0],
            trailId = Num 7, trailName = Str ''Ridge'', indexOnLine = 5\<rparr>)
     (Some \<lparr>trailCoords = [Pt 0 0, Pt 1 0, Pt 2 0, Pt 3 0, Pt 4 0, Pt 5 0, Pt 6 0, Pt 7 0, Pt 8 0, Pt 9 0, Pt 10 0],
            trailId = Num 7, trailName = Str ''Ridge'', indexOnLine = 9\<rparr>)
     (Pt (11 / 2) 0) (Pt (19 / 2) 0)
   = Inr \<lparr>coords = [Pt (11 / 2) 0, Pt 6 0, Pt 7 0, Pt 8 0, Pt 9 0, Pt (19 / 2) 0], isTrailSnapped = True\<rparr>"
proof -
  let ?t = "[Pt 0 0, Pt 1 0, Pt 2 0, Pt 3 0, Pt 4 0, Pt 5 0, Pt 6 0, Pt 7 0, Pt 8 0, Pt 9 0, Pt 10 0]"
  let ?p = "\<lparr>trailCoords = ?t, trailId = Num 7, trailName = Str ''Ridge'', indexOnLine = 5\<rparr>"
  let ?c = "\<lparr>trailCoords = ?t, trailId = Num 7, trailName = Str ''Ridge'', indexOnLine = 9\<rparr>"
  have m: "trailsMatch (Some ?p) (Some ?c) = Inr Same"
    by (simp add: trailsMatch_def jsAt_def bindE_def)
  have "indexOnLine ?p = 5" and "indexOnLine ?c = 9" by simp_all
  from sameTrail_5_9 [OF m this, of "flatEnv []" "Pt (11 / 2) 0" "Pt (19 / 2) 0"] m
  show ?thesis by (simp add: jsAt_def)
qed

text \<open>
  C2 as stated leaves out trail vertex 9; on the trail of eleven vertices the segment
  is not the five-coordinate sequence of the claim.
\<close>

theorem sameTrail_5_9_counterexample:
  "getTrailSegmentBetween (flatEnv [])
     (Some \<lparr>trailCoords = [Pt 0 0, Pt 1 0, Pt 2 0, Pt 3 0, Pt 4 0, Pt 5 0, Pt 6 0, Pt 7 0, Pt 8 0, Pt 9 0, Pt 10 0],
            trailId = Num 7, trailName = Str ''Ridge'', indexOnLine = 5\<rparr>)
     (Some \<lparr>trailCoords = [Pt 0 0, Pt 1 0, Pt 2 0, Pt 3 0, Pt 4 0, Pt 5 0, Pt 6 0, Pt 7 0, Pt 8 0, Pt 9 0, Pt 10 0],
            trailId = Num 7, trailName = Str ''Ridge'', indexOnLine = 9\<rparr>)
     (Pt (11 / 2) 0) (Pt (19 / 2) 0)
   \<noteq> Inr \<lparr>coords = [Pt (11 / 2) 0, Pt 6 0, Pt 7 0, Pt 8 0, Pt (19 / 2) 0], isTrailSnapped = True\<rparr>"
  by (simp add: getTrailSegmentBetween_def trailsMatch_def jsAt_def bindE_def extractTrailSlice_def
      upto.simps)

text \<open>
  C3. Reversing the slice from \<open>A\<close> at \<open>idxA\<close> to \<open>B\<close> at \<open>idxB\<close> gives, coordinate
  for coordinate, the slice from \<open>B\<close> at \<open>idxB\<close> to \<open>A\<close> at \<open>idxA\<close>, for every
  polyline and every pair of indices.
\<close>

theorem extractTrailSlice_symmetry:
  "rev (extractTrailSlice line A idxA B idxB) = extractTrailSlice line B idxB A idxA"
proof (cases "idxA = idxB")
  case True
  then show ?thesis by (simp add: extractTrailSlice_def)
next
  case False
  then show ?thesis by (auto simp: extractTrailSlice_def rev_map)
qed

text \<open>
  C10. The slice has exactly \<open>|startIdx - endIdx| + 2\<close> coordinates, hence at least
  two, also when both indices are equal.
\<close>

theorem extractTrailSlice_length:
  "length (extractTrailSlice line A startIdx B endIdx) = nat \<bar>startIdx - endIdx\<bar> + 2
   \<and> 2 \<le> length (extractTrailSlice line A startIdx B endIdx)
   \<and> length (extractTrailSlice line A idx B idx) = 2"
  by (simp add: extractTrailSlice_def)

text \<open>
  C9. The trail-identity classification does not depend on the order of its two
  arguments: the same class, or the same exception, results either way.
\<close>

theorem trailsMatch_symmetric:
  "trailsMatch (Some A) (Some B) = trailsMatch (Some B) (Some A)"
proof -
  have ce: "coordsEqual x y = coordsEqual y x" for x y
    by (cases x; cases y) auto
  have first: "coordsEqual (jsAt (trailCoords A) 0) (jsAt (trailCoords B) 0)
      = coordsEqual (jsAt (trailCoords B) 0) (jsAt (trailCoords A) 0)"
    by (rule ce)
  have last: "coordsEqual (jsAt (trailCoords A) (int (length (trailCoords A)) - 1))
                (jsAt (trailCoords B) (int (length (trailCoords B)) - 1))
      = coordsEqual (jsAt (trailCoords B) (int (length (trailCoords B)) - 1))
                (jsAt (trailCoords A) (int (length (trailCoords A)) - 1))"
    by (rule ce)
  show ?thesis
    unfolding trailsMatch_def Let_def option.case first last
    by (auto simp: bindE_def split: sum.splits)
qed

text \<open>
  C4. When \<open>snapToTrail\<close> accepts a snap, the returned point lies within
  \<open>SNAP_PIXEL_RADIUS\<close> pixels of the click on screen. When it rejects, it returns the
  click itself, and the nearest point of every candidate trail it examined (each line
  string of two or more coordinates in the query result) is farther than the radius.
\<close>

theorem snapToTrail_radius:
  assumes "snapToTrail env coord = Inr r"
  shows "(snapped r \<longrightarrow>
           (\<exists>pixel sp. map_project env coord = Inr pixel \<and> map_project env (coordinates r) = Inr sp
              \<and> pixelDistance sp pixel \<le> SNAP_PIXEL_RADIUS))
       \<and> (\<not> snapped r \<longrightarrow> coordinates r = coord)
       \<and> (\<not> snapped r \<and> turfLoaded env \<longrightarrow>
           (\<exists>pixel trails.
              map_project env coord = Inr pixel
              \<and> map_queryRenderedFeatures env
                   ((fst pixel - SNAP_PIXEL_RADIUS, snd pixel - SNAP_PIXEL_RADIUS),
                    (fst pixel + SNAP_PIXEL_RADIUS, snd pixel + SNAP_PIXEL_RADIUS)) = Inr trails
              \<and> (\<forall>trail\<in>set trails.
                    geomType trail = ''LineString'' \<longrightarrow> 2 \<le> length (geomCoordinates trail) \<longrightarrow>
                    (\<exists>clickPoint n d. turf_point env coord = Inr clickPoint
                       \<and> snapCandidate env pixel clickPoint trail = Inr (n, d)
                       \<and> SNAP_PIXEL_RADIUS < d))))"
proof (cases "turfLoaded env")
  case False
  with assms have "r = unsnapped coord" by (simp add: snapToTrail_def)
  with False show ?thesis by (simp add: unsnapped_def)
next
  case True
  with assms obtain pixel trails where px: "map_project env coord = Inr pixel"
    and q: "map_queryRenderedFeatures env
                   ((fst pixel - SNAP_PIXEL_RADIUS, snd pixel - SNAP_PIXEL_RADIUS),
                    (fst pixel + SNAP_PIXEL_RADIUS, snd pixel + SNAP_PIXEL_RADIUS)) = Inr trails"
    and rest: "(if length trails = 0 then Inr (unsnapped coord)
        else
          bindE (turf_point env coord) (\<lambda>clickPoint.
          bindE (foldE (snapStep env pixel clickPoint) None trails) (\<lambda>b.
          case b of
            None \<Rightarrow> Inr (unsnapped coord)
          | Some b' \<Rightarrow>
              if bestPixelDist b' \<le> SNAP_PIXEL_RADIUS
              then Inr \<lparr>coordinates = nearCoordinates (bestPoint b'), snapped = True,
                        trailFeature = Some (bestTrail b'),
                        snapIndexOnLine = Some (nearIndex (bestPoint b'))\<rparr>
              else Inr (unsnapped coord)))) = Inr r"
    unfolding snapToTrail_def by (auto simp: bindE_Inr_iff)
  show ?thesis
  proof (cases "trails = []")
    case True
    with rest have "r = unsnapped coord" by simp
    with True px q show ?thesis by (simp add: unsnapped_def)
  next
    case False
    with rest obtain cp where cp: "turf_point env coord = Inr cp"
      by (cases "turf_point env coord") (auto simp: bindE_def)
    with False rest obtain b where loop: "foldE (snapStep env pixel cp) None trails = Inr b"
      by (cases "foldE (snapStep env pixel cp) None trails") (auto simp: bindE_def)
    from False rest cp loop have fin: "(case b of
            None \<Rightarrow> Inr (unsnapped coord)
          | Some b' \<Rightarrow>
              if bestPixelDist b' \<le> SNAP_PIXEL_RADIUS
              then Inr \<lparr>coordinates = nearCoordinates (bestPoint b'), snapped = True,
                        trailFeature = Some (bestTrail b'),
                        snapIndexOnLine = Some (nearIndex (bestPoint b'))\<rparr>
              else Inr (unsnapped coord)) = (Inr r :: error + snapResult)"
      by (simp add: bindE_def)
    note mn = snapLoop_min [OF loop]
    show ?thesis
    proof (cases "snapped r")
      case True
      with fin obtain b' where b: "b = Some b'" and le: "bestPixelDist b' \<le> SNAP_PIXEL_RADIUS"
        and r: "coordinates r = nearCoordinates (bestPoint b')"
        by (auto simp: unsnapped_def split: option.splits if_splits)
      from snapLoop_best [OF loop [unfolded b]] le r px True show ?thesis by auto
    next
      case unsn: False
      with fin have c: "coordinates r = coord"
        by (auto simp: unsnapped_def split: option.splits if_splits)
      have far: "\<exists>clickPoint n d. turf_point env coord = Inr clickPoint
                       \<and> snapCandidate env pixel clickPoint trail = Inr (n, d)
                       \<and> SNAP_PIXEL_RADIUS < d"
        if t: "trail \<in> set trails" "geomType trail = ''LineString''" "2 \<le> length (geomCoordinates trail)"
        for trail
      proof -
        from mn t obtain n d b' where cand: "snapCandidate env pixel cp trail = Inr (n, d)"
          and b: "b = Some b'" and le: "bestPixelDist b' \<le> d"
          by blast
        from fin b unsn have "\<not> bestPixelDist b' \<le> SNAP_PIXEL_RADIUS"
          by (auto split: if_splits)
        with le cand cp show ?thesis by auto
      qed
      from c unsn px q far show ?thesis by auto
    qed
  qed
qed

text \<open>
  A click three pixels from a trail vertex snaps to it; a click whose nearest trail
  point is some thirty-five pixels away is returned unsnapped.
\<close>

theorem snapToTrail_radius_witness:
  "snapToTrail (flatEnv [lineFeature ''T'' [Pt 0 0, Pt 125 25]]) (Pt 3 0)
     = Inr \<lparr>coordinates = Pt 0 0, snapped = True,
            trailFeature = Some (lineFeature ''T'' [Pt 0 0, Pt 125 25]), snapIndexOnLine = Some 0\<rparr>
   \<and> pixelDistance (0, 0) (3, 0) \<le> SNAP_PIXEL_RADIUS
   \<and> snapToTrail (flatEnv [lineFeature ''T'' [Pt 0 0, Pt 125 25]]) (Pt 100 0)
     = Inr \<lparr>coordinates = Pt 100 0, snapped = False, trailFeature = None, snapIndexOnLine = None\<rparr>
   \<and> snapCandidate (flatEnv [lineFeature ''T'' [Pt 0 0, Pt 125 25]]) (100, 0) (Pt 100 0)
         (lineFeature ''T'' [Pt 0 0, Pt 125 25])
     = Inr (\<lparr>nearCoordinates = Pt 125 25, nearIndex = 1\<rparr>, pixelDistance (125, 25) (100, 0))
   \<and> SNAP_PIXEL_RADIUS < pixelDistance (125, 25) (100, 0)"
proof -
  let ?env = "flatEnv [lineFeature ''T'' [Pt 0 0, Pt 125 25]]"
  have near: "snapToTrail ?env (Pt 3 0)
     = Inr \<lparr>coordinates = Pt 0 0, snapped = True,
            trailFeature = Some (lineFeature ''T'' [Pt 0 0, Pt 125 25]), snapIndexOnLine = Some 0\<rparr>"
    by (simp add: snap_simps flat_simps)
  have far: "snapToTrail ?env (Pt 100 0)
     = Inr \<lparr>coordinates = Pt 100 0, snapped = False, trailFeature = None, snapIndexOnLine = None\<rparr>"
    by (simp add: snap_simps flat_simps not_le [symmetric])
  have cand: "snapCandidate ?env (100, 0) (Pt 100 0) (lineFeature ''T'' [Pt 0 0, Pt 125 25])
     = Inr (\<lparr>nearCoordinates = Pt 125 25, nearIndex = 1\<rparr>, pixelDistance (125, 25) (100, 0))"
    by (simp add: snapCandidate_def bindE_def flat_simps)
  from snapToTrail_radius [OF near] have "pixelDistance (0, 0) (3, 0) \<le> SNAP_PIXEL_RADIUS"
    by (simp add: flat_simps)
  moreover from snapToTrail_radius [OF far] cand
  have "SNAP_PIXEL_RADIUS < pixelDistance (125, 25) (100, 0)"
    by (simp add: flat_simps SNAP_PIXEL_RADIUS_def)
  ultimately show ?thesis using near far cand by simp
qed




text \<open>
  C6 (as the code has it). When a segment is appended to the assembled coordinates, its
  first coordinate is dropped exactly when it duplicates the last assembled coordinate
  within the epsilon. Nothing else is removed: the assembled sequence is free of
  adjacent duplicates when every segment has at least two coordinates and is itself
  free of them, and consecutive segments are chained.
\<close>

theorem assembly_dedup:
  "(appendSegment acc seg = Inr out \<and> acc \<noteq> [] \<and> coords seg \<noteq> [] \<longrightarrow>
      out = acc @ (if nearDuplicate (last acc) (hd (coords seg))
                   then tl (coords seg) else coords seg))
   \<and> (buildMainRouteDisplayCoords s = Inr display
        \<and> (\<forall>sg\<in>set (routeSegments s). 2 \<le> length (coords sg) \<and> noAdjacentDuplicates (coords sg))
        \<and> segmentsChained (routeSegments s) \<longrightarrow>
      noAdjacentDuplicates display)"
proof (intro conjI impI)
  assume "appendSegment acc seg = Inr out \<and> acc \<noteq> [] \<and> coords seg \<noteq> []"
  then show "out = acc @ (if nearDuplicate (last acc) (hd (coords seg))
                   then tl (coords seg) else coords seg)"
    using appendSegment_result by blast
next
  assume a: "buildMainRouteDisplayCoords s = Inr display
        \<and> (\<forall>sg\<in>set (routeSegments s). 2 \<le> length (coords sg) \<and> noAdjacentDuplicates (coords sg))
        \<and> segmentsChained (routeSegments s)"
  show "noAdjacentDuplicates display"
  proof (cases "routeSegments s")
    case Nil
    with a have "display = [] \<or> (\<exists>c. display = [c])"
      by (auto simp: buildMainRouteDisplayCoords_def Let_def split: if_splits)
    then show ?thesis by auto
  next
    case (Cons sg segs)
    with a have run: "foldE appendSegment (coords sg) segs = Inr display"
      by (simp add: buildMainRouteDisplayCoords_def)
    from a Cons have first: "2 \<le> length (coords sg)" "noAdjacentDuplicates (coords sg)"
      and others: "\<forall>seg\<in>set segs. 2 \<le> length (coords seg) \<and> noAdjacentDuplicates (coords seg)"
      and chain: "segmentsChained (sg # segs)"
      by auto
    from first(1) have ne: "coords sg \<noteq> []" by auto
    show ?thesis
    proof (rule foldE_appendSegment_nodup [OF run ne first(2) others])
      show "last (coords sg) = hd (coords (hd segs))
           \<or> \<not> nearDuplicate (last (coords sg)) (hd (coords (hd segs)))" if "segs \<noteq> []"
        using that chain by (cases segs) auto
      show "segmentsChained segs" using chain by (cases segs) auto
    qed
  qed
qed

text \<open>Three clicks, two straight segments sharing the middle vertex.\<close>

theorem assembly_dedup_witness:
  "appendSegment [Pt 0 0, Pt 1 0] \<lparr>coords = [Pt 1 0, Pt 1 1], isTrailSnapped = False\<rparr>
     = Inr [Pt 0 0, Pt 1 0, Pt 1 1]
   \<and> nearDuplicate (Pt 1 0) (Pt 1 0)
   \<and> routeSegments (runEvents (flatEnv []) initialSession
        [StartRouteDrawing, MapClick 0 0 True, MapClick 1 0 True, MapClick 1 1 True])
     = [\<lparr>coords = [Pt 0 0, Pt 1 0], isTrailSnapped = False\<rparr>,
        \<lparr>coords = [Pt 1 0, Pt 1 1], isTrailSnapped = False\<rparr>]
   \<and> buildMainRouteDisplayCoords (runEvents (flatEnv []) initialSession
        [StartRouteDrawing, MapClick 0 0 True, MapClick 1 0 True, MapClick 1 1 True])
     = Inr [Pt 0 0, Pt 1 0, Pt 1 1]
   \<and> noAdjacentDuplicates [Pt 0 0, Pt 1 0, Pt 1 1]"
proof -
  let ?s = "runEvents (flatEnv []) initialSession
        [StartRouteDrawing, MapClick 0 0 True, MapClick 1 0 True, MapClick 1 1 True]"
  let ?seg = "\<lparr>coords = [Pt 1 0, Pt 1 1], isTrailSnapped = False\<rparr>"
  have app: "appendSegment [Pt 0 0, Pt 1 0] ?seg = Inr [Pt 0 0, Pt 1 0, Pt 1 1]"
    by (simp add: appendSegment_def bindE_def)
  have segs: "routeSegments ?s = [\<lparr>coords = [Pt 0 0, Pt 1 0], isTrailSnapped = False\<rparr>, ?seg]"
    unfolding run_three_vertices by simp
  have build: "buildMainRouteDisplayCoords ?s = Inr [Pt 0 0, Pt 1 0, Pt 1 1]"
    unfolding run_three_vertices
    by (simp add: buildMainRouteDisplayCoords_def appendSegment_def bindE_def)
  have hyp: "(\<forall>sg\<in>set (routeSegments ?s). 2 \<le> length (coords sg) \<and> noAdjacentDuplicates (coords sg))
    \<and> segmentsChained (routeSegments ?s)"
    unfolding segs by simp
  from assembly_dedup [of "[Pt 0 0, Pt 1 0]" ?seg "[Pt 0 0, Pt 1 0, Pt 1 1]" ?s "[Pt 0 0, Pt 1 0, Pt 1 1]"]
    app build hyp
  have "noAdjacentDuplicates [Pt 0 0, Pt 1 0, Pt 1 1]" by blast
  with app segs build show ?thesis by simp
qed

text \<open>
  C6 as stated fails on a segment that carries a duplicate inside: two clicks near the
  same end of a trail snap to the same trail vertex, the segment between them is that
  vertex twice, and the assembled route keeps both.
\<close>

theorem assembly_duplicate_counterexample:
  "buildMainRouteDisplayCoords (runEvents (flatEnv [lineFeature ''T'' [Pt 0 0, Pt 10 0]]) initialSession
        [StartRouteDrawing, MapClick 1 1 False, MapClick 2 (- 1) False])
     = Inr [Pt 0 0, Pt 0 0]
   \<and> nearDuplicate (Pt 0 0) (Pt 0 0)"
  by (simp add: session_simps snap_simps flat_simps trailsMatch_def extractTrailSlice_def
      buildMainRouteDisplayCoords_def nullish_def lineFeature_def)

text \<open>
  C5 (as the code has it). \<open>mergeTrailFragments\<close> tests the joins A-end to B-start,
  A-end to B-end (B reversed), B-end to A-start and B-start to A-start (B reversed), in
  that order, each gap against \<open>MERGE_GAP_TOLERANCE_METERS\<close>; the first gap within the
  tolerance, the tolerance itself included, decides the merged line, and when all four
  exceed it the result is null. After a failed merge the caller asks the corridor
  connector, and draws the straight segment only when that finds no connection either.
\<close>

theorem mergeTrailFragments_order:
  "(2 \<le> length coordsA \<and> 2 \<le> length coordsB
      \<and> distMeters env (last coordsA) (hd coordsB) = Inr dAEndBStart
      \<and> distMeters env (last coordsA) (last coordsB) = Inr dAEndBEnd
      \<and> distMeters env (last coordsB) (hd coordsA) = Inr dBEndAStart
      \<and> distMeters env (hd coordsB) (hd coordsA) = Inr dBStartAStart
      \<and> (\<forall>cs. 2 \<le> length cs \<longrightarrow> turf_lineString env cs = Inr cs) \<longrightarrow>
    mergeTrailFragments env coordsA coordsB =
      Inr (if dAEndBStart \<le> MERGE_GAP_TOLERANCE_METERS then Some (coordsA @ tl coordsB)
           else if dAEndBEnd \<le> MERGE_GAP_TOLERANCE_METERS then Some (coordsA @ tl (rev coordsB))
           else if dBEndAStart \<le> MERGE_GAP_TOLERANCE_METERS then Some (coordsB @ tl coordsA)
           else if dBStartAStart \<le> MERGE_GAP_TOLERANCE_METERS then Some (rev coordsB @ tl coordsA)
           else None))
   \<and> (trailsMatch (Some p) (Some c) = Inr Related
      \<and> mergeTrailFragments env (trailCoords p) (trailCoords c) = Inr None \<longrightarrow>
    getTrailSegmentBetween env (Some p) (Some c) prevCoord currCoord =
      (case tryConnectTrails env (Some p) (Some c) prevCoord currCoord of
         Inl e \<Rightarrow> Inl e
       | Inr None \<Rightarrow> Inr (straightLine prevCoord currCoord)
       | Inr (Some r) \<Rightarrow> Inr r))"
  using mergeTrailFragments_joins merge_failure_caller by blast

text \<open>
  Two fragments whose closest ends are exactly 20 meters apart are merged; two
  fragments 90 meters apart, on a map with no other trail, give the straight segment.
\<close>

theorem mergeTrailFragments_order_witness:
  "distMeters (flatEnv []) (Pt 10 0) (Pt 30 0) = Inr 20
   \<and> mergeTrailFragments (flatEnv []) [Pt 0 0, Pt 10 0] [Pt 30 0, Pt 40 0]
       = Inr (Some [Pt 0 0, Pt 10 0, Pt 40 0])
   \<and> trailsMatch
        (Some \<lparr>trailCoords = [Pt 0 0, Pt 10 0], trailId = Null, trailName = Str ''T'', indexOnLine = 0\<rparr>)
        (Some \<lparr>trailCoords = [Pt 100 0, Pt 110 0], trailId = Null, trailName = Str ''T'', indexOnLine = 0\<rparr>)
       = Inr Related
   \<and> mergeTrailFragments (flatEnv []) [Pt 0 0, Pt 10 0] [Pt 100 0, Pt 110 0] = Inr None
   \<and> tryConnectTrails (flatEnv [])
        (Some \<lparr>trailCoords = [Pt 0 0, Pt 10 0], trailId = Null, trailName = Str ''T'', indexOnLine = 0\<rparr>)
        (Some \<lparr>trailCoords = [Pt 100 0, Pt 110 0], trailId = Null, trailName = Str ''T'', indexOnLine = 0\<rparr>)
        (Pt 10 0) (Pt 100 0) = Inr None
   \<and> getTrailSegmentBetween (flatEnv [])
        (Some \<lparr>trailCoords = [Pt 0 0, Pt 10 0], trailId = Null, trailName = Str ''T'', indexOnLine = 0\<rparr>)
        (Some \<lparr>trailCoords = [Pt 100 0, Pt 110 0], trailId = Null, trailName = Str ''T'', indexOnLine = 0\<rparr>)
        (Pt 10 0) (Pt 100 0)
       = Inr \<lparr>coords = [Pt 10 0, Pt 100 0], isTrailSnapped = False\<rparr>"
proof -
  let ?env = "flatEnv []"
  let ?A = "[Pt 0 0, Pt 10 0]"
  let ?B = "[Pt 30 0, Pt 40 0]"
  let ?C = "[Pt 100 0, Pt 110 0]"
  let ?p = "\<lparr>trailCoords = ?A, trailId = Null, trailName = Str ''T'', indexOnLine = 0\<rparr>"
  let ?c = "\<lparr>trailCoords = ?C, trailId = Null, trailName = Str ''T'', indexOnLine = 0\<rparr>"
  have d: "distMeters ?env (last ?A) (hd ?B) = Inr 20"
    "distMeters ?env (last ?A) (last ?B) = Inr 30"
    "distMeters ?env (last ?B) (hd ?A) = Inr 40"
    "distMeters ?env (hd ?B) (hd ?A) = Inr 30"
    by (simp_all add: distMeters_def bindE_def flat_simps)
  have ls: "\<forall>cs. 2 \<le> length cs \<longrightarrow> turf_lineString ?env cs = Inr cs"
    by (simp add: flat_simps)
  have len: "2 \<le> length ?A" "2 \<le> length ?B" by simp_all
  have m: "trailsMatch (Some ?p) (Some ?c) = Inr Related"
    by (simp add: trailsMatch_def jsAt_def bindE_def)
  have f: "mergeTrailFragments ?env (trailCoords ?p) (trailCoords ?c) = Inr None"
    by (simp add: mergeTrailFragments_def distMeters_def jsAt_def bindE_def flat_simps
        MERGE_GAP_TOLERANCE_METERS_def)
  have t: "tryConnectTrails ?env (Some ?p) (Some ?c) (Pt 10 0) (Pt 100 0) = Inr None"
    by (simp add: tryConnectTrails_def twoHop_def bindE_def flat_simps)
  note inst = mergeTrailFragments_order
    [of ?A ?B ?env 20 30 40 30 ?p ?c "Pt 10 0" "Pt 100 0"]
  from inst len d ls have "mergeTrailFragments ?env ?A ?B = Inr (Some [Pt 0 0, Pt 10 0, Pt 40 0])"
    by (simp add: MERGE_GAP_TOLERANCE_METERS_def)
  moreover from inst m f t
  have "getTrailSegmentBetween ?env (Some ?p) (Some ?c) (Pt 10 0) (Pt 100 0)
      = Inr \<lparr>coords = [Pt 10 0, Pt 100 0], isTrailSnapped = False\<rparr>"
    by (simp add: straightLine_def)
  ultimately show ?thesis using d(1) m f t by simp
qed

text \<open>
  C5 as stated ends in a straight segment after a failed merge. With a third trail
  linking the two fragments, the failed merge is followed by a corridor connection
  along that trail, flagged trail-snapped.
\<close>

theorem merge_failure_corridor_counterexample:
  "trailsMatch
     (Some \<lparr>trailCoords = [Pt 0 0, Pt 10 0], trailId = Null, trailName = Str ''T'', indexOnLine = 0\<rparr>)
     (Some \<lparr>trailCoords = [Pt 100 0, Pt 110 0], trailId = Null, trailName = Str ''T'', indexOnLine = 0\<rparr>)
     = Inr Related
   \<and> mergeTrailFragments
       (flatEnv [lineFeature ''T'' [Pt 0 0, Pt 10 0], lineFeature ''T'' [Pt 100 0, Pt 110 0],
                 lineFeature ''Link'' [Pt 10 0, Pt 50 5, Pt 100 0]])
       [Pt 0 0, Pt 10 0] [Pt 100 0, Pt 110 0] = Inr None
   \<and> getTrailSegmentBetween
       (flatEnv [lineFeature ''T'' [Pt 0 0, Pt 10 0], lineFeature ''T'' [Pt 100 0, Pt 110 0],
                 lineFeature ''Link'' [Pt 10 0, Pt 50 5, Pt 100 0]])
       (Some \<lparr>trailCoords = [Pt 0 0, Pt 10 0], trailId = Null, trailName = Str ''T'', indexOnLine = 0\<rparr>)
       (Some \<lparr>trailCoords = [Pt 100 0, Pt 110 0], trailId = Null, trailName = Str ''T'', indexOnLine = 0\<rparr>)
       (Pt 10 0) (Pt 100 0)
     = Inr \<lparr>coords = [Pt 10 0, Pt 50 5, Pt 100 0, Pt 100 0], isTrailSnapped = True\<rparr>"
  by (simp add: engine_simps flat_simps mergeTrailFragments_def tileBoundarySlice_def upto.simps)

text \<open>
  C8 (as the code has it). For trail refs that are null or well formed, defined vertex
  coordinates and well-behaved collaborators, \<open>tryConnectTrails\<close> returns a
  connection or null without raising, and \<open>getTrailSegmentBetween\<close> returns a segment
  of at least two coordinates, which is either trail-snapped or the straight line
  between the two vertices; an exception inside the tile-boundary block (merge or line
  slice) is caught there. When the trails are not the same, the tile-boundary block
  yields nothing and the connector returns null, the result is the straight line.
\<close>

theorem getTrailSegmentBetween_returns:
  assumes wb: "wellBehaved env"
    and refs: "wellFormedRef prevRef" "wellFormedRef currRef"
    and cs: "prevCoord \<noteq> Undef" "currCoord \<noteq> Undef"
  shows "(\<exists>r. tryConnectTrails env prevRef currRef prevCoord currCoord = Inr r)
    \<and> (\<exists>seg. getTrailSegmentBetween env prevRef currRef prevCoord currCoord = Inr seg
           \<and> 2 \<le> length (coords seg)
           \<and> (seg = straightLine prevCoord currCoord \<or> isTrailSnapped seg))
    \<and> (tryConnectTrails env prevRef currRef prevCoord currCoord = Inr None
         \<and> trailsMatch prevRef currRef \<noteq> Inr Same
         \<and> (\<forall>p c r. trailsMatch prevRef currRef = Inr Related
                \<and> prevRef = Some p \<and> currRef = Some c \<longrightarrow>
                tileBoundarySlice env p c prevCoord currCoord \<noteq> Inr (Some r))
        \<longrightarrow> getTrailSegmentBetween env prevRef currRef prevCoord currCoord
              = Inr (straightLine prevCoord currCoord))"
proof -
  from tryConnectTrails_total [OF wb cs]
  obtain t where t: "tryConnectTrails env prevRef currRef prevCoord currCoord = Inr t" ..
  from trailsMatch_total [OF refs] obtain m where m: "trailsMatch prevRef currRef = Inr m" ..
  let ?straight = "straightLine prevCoord currCoord"
  have straight_ok: "2 \<le> length (coords ?straight)" by (simp add: straightLine_def)
  have main: "(\<exists>seg. getTrailSegmentBetween env prevRef currRef prevCoord currCoord = Inr seg
           \<and> 2 \<le> length (coords seg) \<and> (seg = ?straight \<or> isTrailSnapped seg))
    \<and> (t = None \<and> m \<noteq> Same
         \<and> (\<forall>p c r. m = Related \<and> prevRef = Some p \<and> currRef = Some c \<longrightarrow>
                tileBoundarySlice env p c prevCoord currCoord \<noteq> Inr (Some r))
        \<longrightarrow> getTrailSegmentBetween env prevRef currRef prevCoord currCoord = Inr ?straight)"
  proof (cases "prevRef = None \<or> currRef = None")
    case True
    then have "getTrailSegmentBetween env prevRef currRef prevCoord currCoord = Inr ?straight"
      by (auto simp: getTrailSegmentBetween_def split: option.splits)
    with straight_ok show ?thesis by simp
  next
    case False
    then obtain p c where pc: "prevRef = Some p" "currRef = Some c" by auto
    note ex = getTrailSegmentBetween_expand [OF m [unfolded pc], of env prevCoord currCoord]
    show ?thesis
    proof (cases "m = Same")
      case True
      with ex pc show ?thesis by (simp add: length_extractTrailSlice)
    next
      case notSame: False
      define res where "res = (if m = Related
              then (case tileBoundarySlice env p c prevCoord currCoord of
                      Inl err \<Rightarrow> None | Inr r \<Rightarrow> r)
              else None)"
      show ?thesis
      proof (cases res)
        case (Some r)
        then have tb: "m = Related" "tileBoundarySlice env p c prevCoord currCoord = Inr (Some r)"
          unfolding res_def by (auto split: if_splits sum.splits)
        from tileBoundarySlice_ends [OF tb(2)] have "2 \<le> length (coords r)" "isTrailSnapped r"
          by simp_all
        moreover from ex notSame Some
        have "getTrailSegmentBetween env prevRef currRef prevCoord currCoord = Inr r"
          unfolding pc res_def by simp
        ultimately show ?thesis using tb pc by auto
      next
        case None
        with ex notSame t
        have g: "getTrailSegmentBetween env prevRef currRef prevCoord currCoord =
            (case t of None \<Rightarrow> Inr ?straight | Some r \<Rightarrow> Inr r)"
          unfolding pc res_def by (simp split: option.splits)
        show ?thesis
        proof (cases t)
          case tn: None
          with g straight_ok show ?thesis by simp
        next
          case (Some r)
          with tryConnectTrails_ends [OF t [unfolded Some]] g show ?thesis by simp
        qed
      qed
    qed
  qed
  with t m show ?thesis by simp
qed

text \<open>
  Two fragments of one trail that merge, on a map whose line slice throws: the
  exception is caught, the connector finds nothing, and the straight line results.
\<close>

theorem getTrailSegmentBetween_returns_witness:
  "wellBehaved (flatEnv []\<lparr>turf_lineSlice := \<lambda>pt1 pt2 line. Inl LibError\<rparr>)
   \<and> mergeTrailFragments (flatEnv []\<lparr>turf_lineSlice := \<lambda>pt1 pt2 line. Inl LibError\<rparr>)
        [Pt 0 0, Pt 10 0] [Pt 10 0, Pt 20 0] = Inr (Some [Pt 0 0, Pt 10 0, Pt 20 0])
   \<and> tileBoundarySlice (flatEnv []\<lparr>turf_lineSlice := \<lambda>pt1 pt2 line. Inl LibError\<rparr>)
        \<lparr>trailCoords = [Pt 0 0, Pt 10 0], trailId = Num 7, trailName = Null, indexOnLine = 0\<rparr>
        \<lparr>trailCoords = [Pt 10 0, Pt 20 0], trailId = Num 7, trailName = Null, indexOnLine = 0\<rparr>
        (Pt 5 0) (Pt 15 0) = Inl LibError
   \<and> tryConnectTrails (flatEnv []\<lparr>turf_lineSlice := \<lambda>pt1 pt2 line. Inl LibError\<rparr>)
        (Some \<lparr>trailCoords = [Pt 0 0, Pt 10 0], trailId = Num 7, trailName = Null, indexOnLine = 0\<rparr>)
        (Some \<lparr>trailCoords = [Pt 10 0, Pt 20 0], trailId = Num 7, trailName = Null, indexOnLine = 0\<rparr>)
        (Pt 5 0) (Pt 15 0) = Inr None
   \<and> getTrailSegmentBetween (flatEnv []\<lparr>turf_lineSlice := \<lambda>pt1 pt2 line. Inl LibError\<rparr>)
        (Some \<lparr>trailCoords = [Pt 0 0, Pt 10 0], trailId = Num 7, trailName = Null, indexOnLine = 0\<rparr>)
        (Some \<lparr>trailCoords = [Pt 10 0, Pt 20 0], trailId = Num 7, trailName = Null, indexOnLine = 0\<rparr>)
        (Pt 5 0) (Pt 15 0)
       = Inr \<lparr>coords = [Pt 5 0, Pt 15 0], isTrailSnapped = False\<rparr>"
proof -
  let ?env = "flatEnv []\<lparr>turf_lineSlice := \<lambda>pt1 pt2 line. Inl LibError\<rparr>"
  let ?p = "\<lparr>trailCoords = [Pt 0 0, Pt 10 0], trailId = Num 7, trailName = Null, indexOnLine = 0\<rparr>"
  let ?c = "\<lparr>trailCoords = [Pt 10 0, Pt 20 0], trailId = Num 7, trailName = Null, indexOnLine = 0\<rparr>"
  have wb: "wellBehaved ?env" by (rule flatEnv_wellBehaved) simp
  have refs: "wellFormedRef (Some ?p)" "wellFormedRef (Some ?c)"
    by (simp_all add: wellFormedRef_def)
  have cs: "Pt 5 0 \<noteq> Undef" "Pt 15 0 \<noteq> Undef" by simp_all
  have mg: "mergeTrailFragments ?env [Pt 0 0, Pt 10 0] [Pt 10 0, Pt 20 0]
      = Inr (Some [Pt 0 0, Pt 10 0, Pt 20 0])"
    by (simp add: mergeTrailFragments_def distMeters_def jsAt_def bindE_def flat_simps
        MERGE_GAP_TOLERANCE_METERS_def)
  have tb: "tileBoundarySlice ?env ?p ?c (Pt 5 0) (Pt 15 0) = Inl LibError"
    by (simp add: tileBoundarySlice_def mergeTrailFragments_def distMeters_def jsAt_def
        bindE_def flat_simps MERGE_GAP_TOLERANCE_METERS_def)
  have m: "trailsMatch (Some ?p) (Some ?c) = Inr Related"
    by (simp add: trailsMatch_def jsAt_def bindE_def)
  have tc: "tryConnectTrails ?env (Some ?p) (Some ?c) (Pt 5 0) (Pt 15 0) = Inr None"
    by (simp add: tryConnectTrails_def twoHop_def bindE_def flat_simps)
  from getTrailSegmentBetween_returns [OF wb refs cs] tc m tb
  have "getTrailSegmentBetween ?env (Some ?p) (Some ?c) (Pt 5 0) (Pt 15 0)
      = Inr (straightLine (Pt 5 0) (Pt 15 0))"
    by simp
  with wb mg tb tc show ?thesis by (simp add: straightLine_def)
qed

text \<open>
  C8 as stated covers malformed refs. A ref whose coordinate array holds an
  \<open>undefined\<close> entry makes \<open>trailsMatch\<close> raise a TypeError, and that call is outside
  every \<open>try\<close> of \<open>getTrailSegmentBetween\<close>.
\<close>

theorem malformed_ref_raises_counterexample:
  "getTrailSegmentBetween (flatEnv [])
     (Some \<lparr>trailCoords = [Undef], trailId = Null, trailName = Null, indexOnLine = 0\<rparr>)
     (Some \<lparr>trailCoords = [Undef], trailId = Null, trailName = Null, indexOnLine = 0\<rparr>)
     (Pt 0 0) (Pt 1 1)
   = Inl TypeError"
  by (simp add: getTrailSegmentBetween_def trailsMatch_def jsAt_def bindE_def)

end
